theory Spec2Isabelle
  imports Main "HOL-Library.Word" "HOL-Library.Sublist"
begin

section \<open>The voice-control component: capture, transcription, refinement\<close>

text \<open>
  The repository is one React component, \<^verbatim>\<open>App\<close>, kept in two revisions in the same
  source file: the first (lines 1-438) has a voice mode and a text-entry mode, the second
  (lines 440-821) has voice capture and a regenerate button. Functions that differ between
  the two take the revision as their first argument; functions that are the same text in
  both take none.

  The component's variables (\<^verbatim>\<open>useState\<close> values and \<^verbatim>\<open>useRef\<close> cells) are the fields
  of one record, every handler is a function from that record to the updated record, and
  every call the handlers make on an object of the browser, of the voice service, of the
  text service or of the host is appended to the field \<open>effects\<close>.
\<close>

subsection \<open>Strings\<close>

text \<open>
  A JavaScript string is a sequence of 16-bit code units. \<open>ascii\<close> embeds a literal of
  the source that is written in ASCII.
\<close>

type_synonym code_unit = "16 word"
type_synonym js_string = "code_unit list"

definition ascii :: "string \<Rightarrow> js_string" where
  "ascii s = map of_char s"

text \<open>
  \<^verbatim>\<open>String.prototype.trim\<close> removes the code units of the ECMAScript productions
  WhiteSpace and LineTerminator from both ends.
\<close>

definition isWhiteSpace :: "code_unit \<Rightarrow> bool" where
  "isWhiteSpace c =
     (c = 0x0009 \<or> c = 0x000A \<or> c = 0x000B \<or> c = 0x000C \<or> c = 0x000D \<or> c = 0x0020 \<or>
      c = 0x00A0 \<or> c = 0x1680 \<or> (0x2000 \<le> c \<and> c \<le> 0x200A) \<or> c = 0x2028 \<or>
      c = 0x2029 \<or> c = 0x202F \<or> c = 0x205F \<or> c = 0x3000 \<or> c = 0xFEFF)"

definition trim :: "js_string \<Rightarrow> js_string" where
  "trim s = rev (dropWhile isWhiteSpace (rev (dropWhile isWhiteSpace s)))"

text \<open>A string in a condition is true exactly when it is not empty.\<close>

definition truthy :: "js_string \<Rightarrow> bool" where
  "truthy s = (s \<noteq> [])"

text \<open>\<^verbatim>\<open>s.includes(needle)\<close>: the needle occurs in \<open>s\<close> as a contiguous run.\<close>

fun includes' :: "js_string \<Rightarrow> js_string \<Rightarrow> bool" where
  "includes' [] needle = (needle = [])"
| "includes' (c # cs) needle = (prefix needle (c # cs) \<or> includes' cs needle)"

text \<open>
  \<^verbatim>\<open>x += v\<close> on a string \<open>x\<close> converts \<open>v\<close> to a string first; a value that is
  \<^verbatim>\<open>undefined\<close> becomes the nine code units of the word "undefined".
\<close>

definition ToString :: "js_string option \<Rightarrow> js_string" where
  "ToString v = (case v of None \<Rightarrow> ascii ''undefined'' | Some t \<Rightarrow> t)"

text \<open>
  \<^verbatim>\<open>Date.now().toString()\<close>: the clock reading is an integer number of milliseconds,
  printed in decimal, with a minus sign when it is negative.
\<close>

definition digit :: "nat \<Rightarrow> code_unit" where
  "digit d = of_nat (48 + d)"

fun digits :: "nat \<Rightarrow> js_string" where
  "digits n = (if n < 10 then [digit n] else digits (n div 10) @ [digit (n mod 10)])"

declare digits.simps [simp del]

definition toString :: "int \<Rightarrow> js_string" where
  "toString i = (if i < 0 then 0x002D # digits (nat (- i)) else digits (nat i))"

subsection \<open>Data model (types.ts)\<close>

datatype AppStatus = IDLE | LISTENING | OPTIMIZING | FINISHED | ERROR

record HistoryItem =
  id' :: js_string
  timestamp :: int
  rawInput :: js_string
  optimizedPrompt :: js_string

datatype InputMode = voice | text_mode

subsection \<open>Objects outside the component\<close>

text \<open>
  The session handle of the voice service: \<open>close_throws\<close> says whether its
  \<^verbatim>\<open>close()\<close> raises when called.
\<close>

record session =
  session_id :: nat
  close_throws :: bool

datatype AudioContextState = suspended | running | closed

record AudioContext =
  context_id :: nat
  state :: AudioContextState

text \<open>A \<^verbatim>\<open>MediaStream\<close> with the identifiers of the tracks \<^verbatim>\<open>getTracks()\<close> returns.\<close>

record MediaStream =
  tracks :: "nat list"

text \<open>A \<^verbatim>\<open>ScriptProcessorNode\<close> is known by its identifier.\<close>

type_synonym ScriptProcessorNode = nat

text \<open>The calls made on outside objects, in the order they are made.\<close>

datatype effect =
    SessionClose nat
  | SendRealtimeInput nat
  | Disconnect ScriptProcessorNode
  | TrackStop nat
  | ContextClose nat
  | OpenSelectKey
  | GenerateContentStream js_string

text \<open>
  A promise of the host settles one way or the other. A host capability is optional:
  \<open>None\<close> is a host without it (\<^verbatim>\<open>window.aistudio\<close> absent, or the method absent).
\<close>

datatype 'a promise = Resolves 'a | Rejects

record host =
  hasSelectedApiKey :: "bool promise option"
  openSelectKey :: "unit promise option"

text \<open>
  What the callbacks given to one \<^verbatim>\<open>ai.live.connect\<close> call close over: the \<^verbatim>\<open>status\<close>
  constant of the render whose \<^verbatim>\<open>startListening\<close> made the call, the local
  \<^verbatim>\<open>audioCtx\<close> and \<^verbatim>\<open>stream\<close>, and the session the promise resolves to.
\<close>

record connection =
  captured_status :: AppStatus
  conn_context :: AudioContext
  conn_stream :: MediaStream
  conn_session :: session

subsection \<open>The component's state\<close>

text \<open>
  The first eight fields are the \<^verbatim>\<open>useState\<close> values (\<open>inputMode\<close> and
  \<open>manualText\<close> exist in the first revision only), the next five the \<^verbatim>\<open>useRef\<close>
  cells. \<open>calls\<close> holds the locals \<^verbatim>\<open>(rawInput, fullText)\<close> of every activation of
  \<^verbatim>\<open>optimizePrompt\<close>, \<open>None\<close> once the activation has ended; \<open>live\<close> is the closure
  of the callbacks of the latest \<^verbatim>\<open>connect\<close>.
\<close>

record app =
  status :: AppStatus
  inputMode :: InputMode
  transcript :: js_string
  manualText :: js_string
  optimizedPrompt :: js_string
  history :: "HistoryItem list"
  error :: "js_string option"
  needsApiKey :: bool
  audioContextRef :: "AudioContext option"
  streamRef :: "MediaStream option"
  scriptProcessorRef :: "ScriptProcessorNode option"
  transcriptRef :: js_string
  sessionRef :: "session option"
  calls :: "(js_string \<times> js_string) option list"
  live :: "connection option"
  effects :: "effect list"

definition initial :: app where
  "initial = \<lparr> status = IDLE, inputMode = voice, transcript = [], manualText = [],
     optimizedPrompt = [], history = [], error = None, needsApiKey = False,
     audioContextRef = None, streamRef = None, scriptProcessorRef = None,
     transcriptRef = [], sessionRef = None, calls = [], live = None, effects = [] \<rparr>"

definition perform :: "effect list \<Rightarrow> app \<Rightarrow> app" where
  "perform es s = s\<lparr>effects := effects s @ es\<rparr>"

subsection \<open>Teardown: stopListeningInternal and handleError\<close>

text \<open>
  \<^verbatim>\<open>try { sessionRef.current.close(); } catch(e) {}\<close>: the call is made and either
  raises (\<open>Inl\<close>) or returns (\<open>Inr\<close>); the empty handler continues after the statement
  in both cases.
\<close>

definition session_close :: "session \<Rightarrow> app \<Rightarrow> (unit + unit) \<times> app" where
  "session_close h s =
     (if close_throws h then Inl () else Inr (), perform [SessionClose (session_id h)] s)"

definition try_close :: "session \<Rightarrow> app \<Rightarrow> app" where
  "try_close h s =
     (case session_close h s of
        (Inl e, s') \<Rightarrow> s'
      | (Inr u, s') \<Rightarrow> s')"

definition release_session :: "app \<Rightarrow> app" where
  "release_session s =
     (case sessionRef s of
        None \<Rightarrow> s
      | Some h \<Rightarrow> (try_close h s)\<lparr>sessionRef := None\<rparr>)"

definition release_processor :: "app \<Rightarrow> app" where
  "release_processor s =
     (case scriptProcessorRef s of
        None \<Rightarrow> s
      | Some p \<Rightarrow> (perform [Disconnect p] s)\<lparr>scriptProcessorRef := None\<rparr>)"

definition release_stream :: "app \<Rightarrow> app" where
  "release_stream s =
     (case streamRef s of
        None \<Rightarrow> s
      | Some m \<Rightarrow> (perform (map TrackStop (tracks m)) s)\<lparr>streamRef := None\<rparr>)"

definition release_context :: "app \<Rightarrow> app" where
  "release_context s =
     (case audioContextRef s of
        None \<Rightarrow> s
      | Some c \<Rightarrow>
          (if state c \<noteq> closed then perform [ContextClose (context_id c)] s else s)
            \<lparr>audioContextRef := None\<rparr>)"

definition stopListeningInternal :: "app \<Rightarrow> app" where
  "stopListeningInternal s =
     release_context (release_stream (release_processor (release_session s)))"

definition handleError :: "js_string \<Rightarrow> app \<Rightarrow> app" where
  "handleError msg s = stopListeningInternal (s\<lparr>error := Some msg, status := ERROR\<rparr>)"

subsection \<open>User-facing messages\<close>

text \<open>
  The messages passed to \<^verbatim>\<open>handleError\<close>, as the code units of the source's literals
  (suffix 1: first revision, suffix 2: second revision).
\<close>

definition msg_voice1 :: js_string where
  "msg_voice1 = [0x8BED, 0x97F3, 0x5F15, 0x64CE, 0x8FDE, 0x63A5, 0x5931, 0x8D25, 0xFF0C, 0x8BF7,
    0x68C0, 0x67E5, 0x5BC6, 0x94A5, 0x662F, 0x5426, 0x6B63, 0x786E, 0x914D, 0x7F6E, 0x3002]"

definition msg_media1 :: js_string where
  "msg_media1 = [0x9EA6, 0x514B, 0x98CE, 0x6743, 0x9650, 0x53D7, 0x963B, 0xFF0C, 0x8BF7, 0x786E,
    0x4FDD, 0x6D4F, 0x89C8, 0x5668, 0x5141, 0x8BB8, 0x8BBF, 0x95EE, 0x97F3, 0x9891, 0x3002]"

definition msg_refine_key1 :: js_string where
  "msg_refine_key1 = [0x70BC, 0x5236, 0x5931, 0x8D25, 0xFF1A, 0x672A, 0x627E, 0x5230, 0x6709,
    0x6548, 0x5BC6, 0x94A5, 0x6216, 0x9879, 0x76EE, 0x3002, 0x8BF7, 0x91CD, 0x65B0, 0x9009,
    0x62E9, 0x5E76, 0x91CD, 0x8BD5, 0x3002]"

definition msg_refine_invalid1 :: js_string where
  "msg_refine_invalid1 = [0x0041, 0x0050, 0x0049, 0x0020, 0x5BC6, 0x94A5, 0x65E0, 0x6548, 0xFF0C,
    0x8BF7, 0x70B9, 0x51FB, 0x4E0A, 0x65B9, 0x914D, 0x7F6E, 0x6B63, 0x786E, 0x7684, 0x5BC6,
    0x94A5, 0x3002]"

definition msg_refine_other1 :: js_string where
  "msg_refine_other1 = [0x70BC, 0x5236, 0x8FC7, 0x7A0B, 0x4E2D, 0x53D1, 0x751F, 0x7F51, 0x7EDC,
    0x5F02, 0x5E38, 0x6216, 0x5BC6, 0x94A5, 0x989D, 0x5EA6, 0x4E0D, 0x8DB3, 0xFF0C, 0x8BF7,
    0x91CD, 0x8BD5, 0x3002]"

definition msg_voice2 :: js_string where
  "msg_voice2 = [0x8BED, 0x97F3, 0x5F15, 0x64CE, 0x8FDE, 0x63A5, 0x4E2D, 0x65AD, 0xFF0C, 0x8BF7,
    0x68C0, 0x67E5, 0x7F51, 0x7EDC, 0x6216, 0x5BC6, 0x94A5, 0x3002]"

definition msg_media2 :: js_string where
  "msg_media2 = [0x65E0, 0x6CD5, 0x83B7, 0x53D6, 0x9EA6, 0x514B, 0x98CE, 0x6743, 0x9650, 0x3002]"

definition msg_refine2 :: js_string where
  "msg_refine2 = [0x63D0, 0x793A, 0x8BCD, 0x70BC, 0x5236, 0x5931, 0x8D25, 0xFF0C, 0x8BF7, 0x91CD,
    0x8BD5, 0x3002]"

datatype revision = Rev1 | Rev2

definition msg_voice :: "revision \<Rightarrow> js_string" where
  "msg_voice v = (case v of Rev1 \<Rightarrow> msg_voice1 | Rev2 \<Rightarrow> msg_voice2)"

definition msg_media :: "revision \<Rightarrow> js_string" where
  "msg_media v = (case v of Rev1 \<Rightarrow> msg_media1 | Rev2 \<Rightarrow> msg_media2)"

subsection \<open>Credential selection\<close>

text \<open>
  An async function either runs on to its end or is abandoned where an awaited promise
  rejects outside any \<^verbatim>\<open>try\<close>; the state reached is kept in both cases.
\<close>

datatype 'a completion = Completed 'a | Aborted 'a

text \<open>
  \<^verbatim>\<open>handleSelectKey\<close> in two parts: up to the \<^verbatim>\<open>await\<close> (the call on the host, when the
  host has the capability), and the continuation once the promise has settled. A caller
  that does not await it runs the first part only; the second part is a later turn.
\<close>

definition handleSelectKey_call :: "host \<Rightarrow> app \<Rightarrow> app" where
  "handleSelectKey_call h s =
     (case openSelectKey h of None \<Rightarrow> s | Some p \<Rightarrow> perform [OpenSelectKey] s)"

definition handleSelectKey_settled :: "unit promise \<Rightarrow> app \<Rightarrow> app" where
  "handleSelectKey_settled p s =
     (case p of Resolves u \<Rightarrow> s\<lparr>needsApiKey := False\<rparr> | Rejects \<Rightarrow> s)"

text \<open>
  The awaited form. The first revision catches a rejection of \<^verbatim>\<open>openSelectKey\<close>; the
  second has no \<^verbatim>\<open>try\<close>, so the rejection passes to the caller.
\<close>

definition handleSelectKey :: "revision \<Rightarrow> host \<Rightarrow> app \<Rightarrow> app completion" where
  "handleSelectKey v h s =
     (case openSelectKey h of
        None \<Rightarrow> Completed s
      | Some p \<Rightarrow>
          (let s' = handleSelectKey_settled p (handleSelectKey_call h s)
           in if p = Rejects \<and> v = Rev2 then Aborted s' else Completed s'))"

text \<open>The effect run once after the first render.\<close>

definition checkKey :: "host \<Rightarrow> app \<Rightarrow> app" where
  "checkKey h s =
     (case hasSelectedApiKey h of
        Some (Resolves hasKey) \<Rightarrow> s\<lparr>needsApiKey := \<not> hasKey\<rparr>
      | Some Rejects \<Rightarrow> s
      | None \<Rightarrow> s)"

text \<open>
  The key check at the head of \<^verbatim>\<open>startListening\<close> (first revision) and inside
  \<^verbatim>\<open>handleManualSubmit\<close>.
\<close>

definition checkKeyFirst :: "host \<Rightarrow> app \<Rightarrow> app completion" where
  "checkKeyFirst h s =
     (case hasSelectedApiKey h of
        None \<Rightarrow> Completed s
      | Some Rejects \<Rightarrow> Aborted s
      | Some (Resolves hasKey) \<Rightarrow> (if \<not> hasKey then handleSelectKey Rev1 h s else Completed s))"

subsection \<open>Refinement: optimizePrompt\<close>

text \<open>
  \<^verbatim>\<open>optimizePrompt\<close> is async. Its first part runs in the caller's turn, up to the
  \<^verbatim>\<open>await\<close> of \<^verbatim>\<open>generateContentStream\<close>; each chunk of the stream, its end and an
  error are later turns. The activation is number \<open>n\<close> in \<open>calls\<close>.
\<close>

definition optimizePrompt_begin :: "revision \<Rightarrow> js_string \<Rightarrow> app \<Rightarrow> app" where
  "optimizePrompt_begin v raw s =
     perform [GenerateContentStream raw]
       ((if v = Rev1 then s\<lparr>error := None\<rparr> else s)
          \<lparr>status := OPTIMIZING, optimizedPrompt := [],
           calls := calls s @ [Some (raw, [])]\<rparr>)"

definition lookup_call :: "nat \<Rightarrow> app \<Rightarrow> (js_string \<times> js_string) option" where
  "lookup_call n s = (if n < length (calls s) then calls s ! n else None)"

text \<open>The truth value of \<^verbatim>\<open>c.text\<close>: false when absent and when the empty string.\<close>

definition text_truthy :: "js_string option \<Rightarrow> bool" where
  "text_truthy c = (case c of None \<Rightarrow> False | Some t \<Rightarrow> truthy t)"

text \<open>
  One iteration of \<^verbatim>\<open>for await (const chunk of responseStream)\<close>. The first revision
  guards the body with \<^verbatim>\<open>if (c.text)\<close>, the second runs it for every chunk.
\<close>

definition optimizePrompt_chunk :: "revision \<Rightarrow> nat \<Rightarrow> js_string option \<Rightarrow> app \<Rightarrow> app" where
  "optimizePrompt_chunk v n c s =
     (case lookup_call n s of
        None \<Rightarrow> s
      | Some (raw, fullText) \<Rightarrow>
          (if v = Rev1 \<and> \<not> text_truthy c then s
           else (let fullText' = fullText @ ToString c
                 in s\<lparr>calls := (calls s)[n := Some (raw, fullText')],
                      optimizedPrompt := fullText'\<rparr>)))"

text \<open>After the loop: the history entry and the Finished status.\<close>

definition optimizePrompt_end :: "nat \<Rightarrow> int \<Rightarrow> int \<Rightarrow> app \<Rightarrow> app" where
  "optimizePrompt_end n now_id now_ts s =
     (case lookup_call n s of
        None \<Rightarrow> s
      | Some (raw, fullText) \<Rightarrow>
          s\<lparr>history := \<lparr> id' = toString now_id, timestamp = now_ts, rawInput = raw,
                          HistoryItem.optimizedPrompt = fullText \<rparr> # history s,
            status := FINISHED,
            calls := (calls s)[n := None]\<rparr>)"

text \<open>\<^verbatim>\<open>err?.message?.includes(...)\<close> on an error whose message may be absent.\<close>

definition message_includes :: "js_string option \<Rightarrow> string \<Rightarrow> bool" where
  "message_includes e needle = (case e of None \<Rightarrow> False | Some m \<Rightarrow> includes' m (ascii needle))"

definition entity_not_found :: "js_string option \<Rightarrow> bool" where
  "entity_not_found e = message_includes e ''Requested entity was not found.''"

text \<open>The \<^verbatim>\<open>catch\<close> block.\<close>

definition optimizePrompt_catch :: "revision \<Rightarrow> host \<Rightarrow> nat \<Rightarrow> js_string option \<Rightarrow> app \<Rightarrow> app" where
  "optimizePrompt_catch v h n err s =
     (case lookup_call n s of
        None \<Rightarrow> s
      | Some call \<Rightarrow>
          (let s0 = s\<lparr>calls := (calls s)[n := None]\<rparr>
           in case v of
                Rev1 \<Rightarrow>
                  (if entity_not_found err then
                     handleError msg_refine_key1
                       (handleSelectKey_call h (s0\<lparr>needsApiKey := True\<rparr>))
                   else if message_includes err ''API key not valid'' then
                     handleError msg_refine_invalid1 s0
                   else handleError msg_refine_other1 s0)
              | Rev2 \<Rightarrow>
                  handleError msg_refine2
                    (if entity_not_found err
                     then handleSelectKey_call h (s0\<lparr>needsApiKey := True\<rparr>)
                     else s0)))"

text \<open>
  A response of the text service: the chunks it yields (the \<^verbatim>\<open>text\<close> of each, absent
  when the chunk has none), then either the end of the stream or an error with its message.
\<close>

record response =
  chunks :: "js_string option list"
  failure :: "js_string option option"

text \<open>One whole activation, from the call to the end of its stream.\<close>

definition optimizePrompt ::
    "revision \<Rightarrow> host \<Rightarrow> js_string \<Rightarrow> response \<Rightarrow> int \<Rightarrow> int \<Rightarrow> app \<Rightarrow> app" where
  "optimizePrompt v h raw r now_id now_ts s =
     (let n = length (calls s);
          s1 = optimizePrompt_begin v raw s;
          s2 = fold (optimizePrompt_chunk v n) (chunks r) s1
      in case failure r of
           None \<Rightarrow> optimizePrompt_end n now_id now_ts s2
         | Some err \<Rightarrow> optimizePrompt_catch v h n err s2)"

text \<open>The two loops on their own: the value of \<^verbatim>\<open>fullText\<close> after the chunks \<open>cs\<close>.\<close>

fun accumulate1 :: "js_string \<Rightarrow> js_string option list \<Rightarrow> js_string" where
  "accumulate1 fullText [] = fullText"
| "accumulate1 fullText (c # cs) =
     accumulate1 (if text_truthy c then fullText @ ToString c else fullText) cs"

fun accumulate2 :: "js_string \<Rightarrow> js_string option list \<Rightarrow> js_string" where
  "accumulate2 fullText [] = fullText"
| "accumulate2 fullText (c # cs) = accumulate2 (fullText @ ToString c) cs"

subsection \<open>Voice capture: startListening and the session callbacks\<close>

text \<open>
  What the browser and the voice service answer during one \<^verbatim>\<open>startListening\<close>:
  the audio context its constructor returns (\<open>None\<close>: the constructor raises), whether
  \<^verbatim>\<open>resume()\<close> resolves, the stream \<^verbatim>\<open>getUserMedia\<close> resolves to (\<open>None\<close>: it
  rejects), whether \<^verbatim>\<open>new GoogleGenAI\<close> returns, and the session the connection
  will resolve to.
\<close>

record media_env =
  new_context :: "AudioContext option"
  resume_ok :: bool
  user_media :: "MediaStream option"
  client_ok :: bool
  new_session :: session

definition reset_capture :: "app \<Rightarrow> app" where
  "reset_capture s = s\<lparr>error := None, transcript := [], optimizedPrompt := [], transcriptRef := []\<rparr>"

text \<open>
  \<^verbatim>\<open>startListening\<close> returns the state it leaves and, when it reached
  \<^verbatim>\<open>ai.live.connect\<close>, the closure of the callbacks it passed. The \<^verbatim>\<open>status\<close> the
  callbacks see is the constant of the render in which the function was created, that is
  the status at the time of the call; \<^verbatim>\<open>setStatus\<close> does not change it. The promises
  the function awaits (key check, \<^verbatim>\<open>resume\<close>, \<^verbatim>\<open>getUserMedia\<close>) are taken to settle
  before any other turn runs; the connection itself is not awaited, its callbacks are
  later turns.
\<close>

fun startListening :: "revision \<Rightarrow> host \<Rightarrow> media_env \<Rightarrow> app \<Rightarrow> app \<times> connection option" where
  "startListening Rev1 h env s =
     (case checkKeyFirst h s of
        Aborted s0 \<Rightarrow> (s0, None)
      | Completed s0 \<Rightarrow>
          (let s1 = reset_capture s0 in
           case new_context env of
             None \<Rightarrow> (handleError msg_media1 s1, None)
           | Some ctx \<Rightarrow>
               (let s2 = s1\<lparr>audioContextRef := Some ctx\<rparr> in
                if state ctx = suspended \<and> \<not> resume_ok env then (handleError msg_media1 s2, None)
                else
                  (let ctx' = (if state ctx = suspended then ctx\<lparr>state := running\<rparr> else ctx);
                       s3 = s2\<lparr>audioContextRef := Some ctx'\<rparr> in
                   case user_media env of
                     None \<Rightarrow> (handleError msg_media1 s3, None)
                   | Some m \<Rightarrow>
                       (let s4 = s3\<lparr>streamRef := Some m\<rparr> in
                        if \<not> client_ok env then (handleError msg_media1 s4, None)
                        else (s4, Some \<lparr> captured_status = status s, conn_context = ctx',
                                          conn_stream = m, conn_session = new_session env \<rparr>))))))"
| "startListening Rev2 h env s =
     (case (if needsApiKey s then handleSelectKey Rev2 h s else Completed s) of
        Aborted s0 \<Rightarrow> (s0, None)
      | Completed s0 \<Rightarrow>
          (let s1 = reset_capture s0 in
           case user_media env of
             None \<Rightarrow> (handleError msg_media2 s1, None)
           | Some m \<Rightarrow>
               (let s2 = s1\<lparr>streamRef := Some m\<rparr> in
                case new_context env of
                  None \<Rightarrow> (handleError msg_media2 s2, None)
                | Some ctx \<Rightarrow>
                    (let s3 = s2\<lparr>audioContextRef := Some ctx\<rparr> in
                     if \<not> client_ok env then (handleError msg_media2 s3, None)
                     else (s3, Some \<lparr> captured_status = status s, conn_context = ctx,
                                       conn_stream = m, conn_session = new_session env \<rparr>)))))"

text \<open>\<^verbatim>\<open>onopen\<close>, with the script processor node the audio context creates.\<close>

definition onopen :: "ScriptProcessorNode \<Rightarrow> app \<Rightarrow> app" where
  "onopen p s = s\<lparr>scriptProcessorRef := Some p, status := LISTENING\<rparr>"

text \<open>
  \<^verbatim>\<open>onaudioprocess\<close> together with the \<^verbatim>\<open>then\<close> callback it registers on the resolved
  session promise: the session is stored in \<^verbatim>\<open>sessionRef\<close> and the frame is sent.
\<close>

definition onaudioprocess :: "connection \<Rightarrow> app \<Rightarrow> app" where
  "onaudioprocess c s =
     perform [SendRealtimeInput (session_id (conn_session c))]
       (s\<lparr>sessionRef := Some (conn_session c)\<rparr>)"

text \<open>A message of the voice service, as far as \<^verbatim>\<open>onmessage\<close> reads it.\<close>

record Transcription =
  text' :: "js_string option"

record LiveServerContent =
  inputTranscription :: "Transcription option"

record LiveServerMessage =
  serverContent :: "LiveServerContent option"

definition onmessage :: "LiveServerMessage \<Rightarrow> app \<Rightarrow> app" where
  "onmessage message s =
     (case serverContent message of
        None \<Rightarrow> s
      | Some content \<Rightarrow>
          (case inputTranscription content of
             None \<Rightarrow> s
           | Some t \<Rightarrow>
               (let part = text' t;
                    buffer = transcriptRef s @ ToString part
                in s\<lparr>transcriptRef := buffer, transcript := buffer\<rparr>)))"

definition onerror :: "revision \<Rightarrow> host \<Rightarrow> js_string option \<Rightarrow> app \<Rightarrow> app" where
  "onerror v h e s =
     handleError (msg_voice v)
       (if entity_not_found e then handleSelectKey_call h (s\<lparr>needsApiKey := True\<rparr>) else s)"

definition stopListening :: "revision \<Rightarrow> app \<Rightarrow> app" where
  "stopListening v s =
     (let finalTranscript = trim (transcriptRef s);
          s1 = stopListeningInternal s
      in if truthy finalTranscript then optimizePrompt_begin v finalTranscript s1
         else s1\<lparr>status := IDLE\<rparr>)"

definition onclose :: "revision \<Rightarrow> connection \<Rightarrow> app \<Rightarrow> app" where
  "onclose v c s = (if captured_status c = LISTENING then stopListening v s else s)"

subsection \<open>Typed input and regeneration\<close>

text \<open>\<^verbatim>\<open>handleManualSubmit\<close> (first revision).\<close>

definition handleManualSubmit :: "host \<Rightarrow> app \<Rightarrow> app" where
  "handleManualSubmit h s =
     (if truthy (trim (manualText s)) then
        (case checkKeyFirst h s of
           Aborted s0 \<Rightarrow> s0
         | Completed s0 \<Rightarrow> optimizePrompt_begin Rev1 (trim (manualText s)) s0)
      else s)"

text \<open>\<^verbatim>\<open>handleRegenerate\<close> (second revision).\<close>

definition handleRegenerate :: "app \<Rightarrow> app" where
  "handleRegenerate s =
     (if truthy (trim (transcriptRef s)) then optimizePrompt_begin Rev2 (transcriptRef s) s
      else s)"

subsection \<open>The event loop\<close>

text \<open>
  One turn of the event loop: a click on a control, a callback of the voice session, a
  turn of a refinement stream, or a host promise settling.
\<close>

datatype event =
    Mount
  | ClickSelectKey
  | SelectKeySettled
  | SetInputMode InputMode
  | ChangeManualText js_string
  | ClickStart media_env
  | ClickStop
  | ClickSubmit
  | ClickRegenerate
  | ClickDismiss
  | OnOpen ScriptProcessorNode
  | OnAudioProcess
  | OnMessage LiveServerMessage
  | OnError "js_string option"
  | OnClose
  | StreamChunk nat "js_string option"
  | StreamEnd nat int int
  | StreamThrow nat "js_string option"

text \<open>
  A control can be clicked when the render shows it and does not disable it; a callback of
  the voice session, the audio-frame callback included, needs a connection and tests
  nothing else. Nothing is assumed about when the browser stops delivering audio frames.
\<close>

fun enabled :: "revision \<Rightarrow> event \<Rightarrow> app \<Rightarrow> bool" where
  "enabled v Mount s = True"
| "enabled v ClickSelectKey s = needsApiKey s"
| "enabled v SelectKeySettled s = (OpenSelectKey \<in> set (effects s))"
| "enabled v (SetInputMode m) s = (v = Rev1 \<and> status s \<noteq> LISTENING)"
| "enabled v (ChangeManualText t) s = (v = Rev1 \<and> inputMode s = text_mode)"
| "enabled v (ClickStart env) s =
     ((v = Rev2 \<or> inputMode s = voice) \<and> status s \<noteq> LISTENING \<and> status s \<noteq> OPTIMIZING)"
| "enabled v ClickStop s = ((v = Rev2 \<or> inputMode s = voice) \<and> status s = LISTENING)"
| "enabled v ClickSubmit s =
     (v = Rev1 \<and> inputMode s = text_mode \<and> truthy (trim (manualText s)) \<and>
      status s \<noteq> OPTIMIZING)"
| "enabled v ClickRegenerate s =
     (v = Rev2 \<and> ((status s = FINISHED \<and> truthy (optimizedPrompt s)) \<or> status s = ERROR))"
| "enabled v ClickDismiss s =
     ((status s = FINISHED \<and> truthy (optimizedPrompt s)) \<or> (v = Rev1 \<and> status s = ERROR))"
| "enabled v (OnOpen p) s = (live s \<noteq> None)"
| "enabled v OnAudioProcess s = (live s \<noteq> None)"
| "enabled v (OnMessage m) s = (live s \<noteq> None)"
| "enabled v (OnError e) s = (live s \<noteq> None)"
| "enabled v OnClose s = (live s \<noteq> None)"
| "enabled v (StreamChunk n c) s = True"
| "enabled v (StreamEnd n a b) s = True"
| "enabled v (StreamThrow n e) s = True"

fun fire :: "revision \<Rightarrow> host \<Rightarrow> event \<Rightarrow> app \<Rightarrow> app" where
  "fire v h Mount s = checkKey h s"
| "fire v h ClickSelectKey s = handleSelectKey_call h s"
| "fire v h SelectKeySettled s =
     (case openSelectKey h of None \<Rightarrow> s | Some p \<Rightarrow> handleSelectKey_settled p s)"
| "fire v h (SetInputMode m) s = s\<lparr>inputMode := m\<rparr>"
| "fire v h (ChangeManualText t) s = s\<lparr>manualText := t\<rparr>"
| "fire v h (ClickStart env) s =
     (case startListening v h env s of
        (s', None) \<Rightarrow> s'
      | (s', Some c) \<Rightarrow> s'\<lparr>live := Some c\<rparr>)"
| "fire v h ClickStop s = stopListening v s"
| "fire v h ClickSubmit s = handleManualSubmit h s"
| "fire v h ClickRegenerate s = handleRegenerate s"
| "fire v h ClickDismiss s = s\<lparr>status := IDLE\<rparr>"
| "fire v h (OnOpen p) s = onopen p s"
| "fire v h OnAudioProcess s = (case live s of None \<Rightarrow> s | Some c \<Rightarrow> onaudioprocess c s)"
| "fire v h (OnMessage m) s = onmessage m s"
| "fire v h (OnError e) s = onerror v h e s"
| "fire v h OnClose s = (case live s of None \<Rightarrow> s | Some c \<Rightarrow> onclose v c s)"
| "fire v h (StreamChunk n c) s = optimizePrompt_chunk v n c s"
| "fire v h (StreamEnd n a b) s = optimizePrompt_end n a b s"
| "fire v h (StreamThrow n e) s = optimizePrompt_catch v h n e s"

definition step :: "revision \<Rightarrow> host \<Rightarrow> event \<Rightarrow> app \<Rightarrow> app" where
  "step v h e s = (if enabled v e s then fire v h e s else s)"

definition run :: "revision \<Rightarrow> host \<Rightarrow> event list \<Rightarrow> app \<Rightarrow> app" where
  "run v h es s = fold (step v h) es s"

subsection \<open>Observations used in the statements\<close>

text \<open>All four resource cells are empty.\<close>

definition refs_null :: "app \<Rightarrow> bool" where
  "refs_null s =
     (sessionRef s = None \<and> scriptProcessorRef s = None \<and> streamRef s = None \<and>
      audioContextRef s = None)"

text \<open>
  The release calls owed for what the cells of \<open>s\<close> hold: closing the session,
  disconnecting the processor node, stopping every track, and closing the audio context
  unless it is closed already.
\<close>

definition release_calls :: "app \<Rightarrow> effect list" where
  "release_calls s =
     (case sessionRef s of None \<Rightarrow> [] | Some h \<Rightarrow> [SessionClose (session_id h)]) @
     (case scriptProcessorRef s of None \<Rightarrow> [] | Some p \<Rightarrow> [Disconnect p]) @
     (case streamRef s of None \<Rightarrow> [] | Some m \<Rightarrow> map TrackStop (tracks m)) @
     (case audioContextRef s of
        None \<Rightarrow> []
      | Some c \<Rightarrow> (if state c \<noteq> closed then [ContextClose (context_id c)] else []))"

text \<open>The calls made between the state \<open>s\<close> and the later state \<open>s'\<close>.\<close>

definition new_effects :: "app \<Rightarrow> app \<Rightarrow> effect list" where
  "new_effects s s' = drop (length (effects s)) (effects s')"

text \<open>
  \<open>s'\<close> is outside the Listening phase with every cell empty, and every release call
  owed for \<open>s\<close> has been made on the way.
\<close>

definition left_and_released :: "app \<Rightarrow> app \<Rightarrow> bool" where
  "left_and_released s s' =
     (status s' \<noteq> LISTENING \<and> refs_null s' \<and> set (release_calls s) \<subseteq> set (new_effects s s'))"

text \<open>The inputs of the refinement requests made so far, oldest first.\<close>

fun request_of :: "effect \<Rightarrow> js_string list" where
  "request_of (GenerateContentStream raw) = [raw]"
| "request_of (SessionClose n) = []"
| "request_of (SendRealtimeInput n) = []"
| "request_of (Disconnect p) = []"
| "request_of (TrackStop n) = []"
| "request_of (ContextClose n) = []"
| "request_of OpenSelectKey = []"

definition submitted :: "app \<Rightarrow> js_string list" where
  "submitted s = concat (map request_of (effects s))"

text \<open>A message of the voice service that carries the transcript fragment \<open>f\<close>.\<close>

definition fragment_message :: "js_string \<Rightarrow> LiveServerMessage" where
  "fragment_message f =
     \<lparr> serverContent = Some \<lparr> inputTranscription = Some \<lparr> text' = Some f \<rparr> \<rparr> \<rparr>"

text \<open>The clock readings that the ends of refinement streams take for the \<^verbatim>\<open>id\<close>.\<close>

fun end_clock :: "event \<Rightarrow> int list" where
  "end_clock (StreamEnd n a b) = [a]"
| "end_clock e = []"

definition end_clocks :: "event list \<Rightarrow> int list" where
  "end_clocks es = concat (map end_clock es)"

fun is_start :: "event \<Rightarrow> bool" where
  "is_start (ClickStart env) = True"
| "is_start e = False"

subsection \<open>Concrete inputs\<close>

text \<open>A session whose \<^verbatim>\<open>close()\<close> raises, and a capture that holds all four resources.\<close>

definition throwing_session :: session where
  "throwing_session = \<lparr> session_id = 3, close_throws = True \<rparr>"

definition capturing :: app where
  "capturing = initial\<lparr> status := LISTENING,
     audioContextRef := Some \<lparr> context_id = 1, state = running \<rparr>,
     streamRef := Some \<lparr> tracks = [7, 8] \<rparr>,
     scriptProcessorRef := Some 5,
     sessionRef := Some throwing_session \<rparr>"

text \<open>A host without the credential capabilities, and one that has both.\<close>

definition bare_host :: host where
  "bare_host = \<lparr> hasSelectedApiKey = None, openSelectKey = None \<rparr>"

definition studio_host :: host where
  "studio_host = \<lparr> hasSelectedApiKey = Some (Resolves True), openSelectKey = Some (Resolves ()) \<rparr>"

text \<open>A browser and service that grant everything \<^verbatim>\<open>startListening\<close> asks for.\<close>

definition granting :: media_env where
  "granting = \<lparr> new_context = Some \<lparr> context_id = 1, state = running \<rparr>, resume_ok = True,
     user_media = Some \<lparr> tracks = [7] \<rparr>, client_ok = True,
     new_session = \<lparr> session_id = 3, close_throws = False \<rparr> \<rparr>"

text \<open>
  A capture in progress whose buffer holds \<open>buffer\<close>, and the closure of a connection
  made from the Idle status.
\<close>

definition heard :: "js_string \<Rightarrow> app" where
  "heard buffer = capturing\<lparr>transcriptRef := buffer, transcript := buffer\<rparr>"

definition listening_connection :: connection where
  "listening_connection = \<lparr> captured_status = IDLE,
     conn_context = \<lparr> context_id = 1, state = running \<rparr>,
     conn_stream = \<lparr> tracks = [7] \<rparr>,
     conn_session = \<lparr> session_id = 3, close_throws = False \<rparr> \<rparr>"

text \<open>The closure of the latest connection does not hold the Listening status.\<close>

definition callbacks_stale :: "app \<Rightarrow> bool" where
  "callbacks_stale s = (case live s of None \<Rightarrow> True | Some c \<Rightarrow> captured_status c \<noteq> LISTENING)"

text \<open>The accumulation loop of either revision.\<close>

definition accumulate :: "revision \<Rightarrow> js_string \<Rightarrow> js_string option list \<Rightarrow> js_string" where
  "accumulate v fullText cs =
     (case v of Rev1 \<Rightarrow> accumulate1 fullText cs | Rev2 \<Rightarrow> accumulate2 fullText cs)"

text \<open>The error text the handlers look for, as a whole message.\<close>

definition needle :: js_string where
  "needle = ascii ''Requested entity was not found.''"

text \<open>The message the \<^verbatim>\<open>catch\<close> of \<open>optimizePrompt\<close> shows for that error.\<close>

definition msg_refine_credential :: "revision \<Rightarrow> js_string" where
  "msg_refine_credential v = (case v of Rev1 \<Rightarrow> msg_refine_key1 | Rev2 \<Rightarrow> msg_refine2)"

text \<open>The call on the host's credential selection: made when the host has the capability.\<close>

definition select_key_calls :: "host \<Rightarrow> effect list" where
  "select_key_calls h = (case openSelectKey h of None \<Rightarrow> [] | Some p \<Rightarrow> [OpenSelectKey])"

text \<open>
  Two refinements in flight at once: a capture hears \<open>''a''\<close> and is stopped, the voice
  session reports an error, the user retries; the first stream yields \<open>''x''\<close> and ends
  at clock reading \<open>t0\<close>, the second ends at \<open>t1\<close>.
\<close>

definition overlapping_refinements :: "int \<Rightarrow> int \<Rightarrow> event list" where
  "overlapping_refinements t0 t1 =
     [ClickStart granting, OnOpen 5, OnMessage (fragment_message (ascii ''a'')), ClickStop,
      OnError None, ClickRegenerate, StreamChunk 0 (Some (ascii ''x'')),
      StreamEnd 0 t0 t0, StreamEnd 1 t1 t1]"

section \<open>Properties\<close>

subsection \<open>Teardown\<close>

lemmas teardown_defs = stopListeningInternal_def release_session_def release_processor_def
  release_stream_def release_context_def try_close_def session_close_def perform_def

lemma stopListeningInternal_eq:
  "stopListeningInternal s =
     s\<lparr>sessionRef := None, scriptProcessorRef := None, streamRef := None,
       audioContextRef := None, effects := effects s @ release_calls s\<rparr>"
  by (simp add: teardown_defs release_calls_def split: option.splits)

lemma handleError_eq:
  "handleError msg s =
     s\<lparr>error := Some msg, status := ERROR, sessionRef := None, scriptProcessorRef := None,
       streamRef := None, audioContextRef := None, effects := effects s @ release_calls s\<rparr>"
  by (simp add: handleError_def stopListeningInternal_eq release_calls_def)

text \<open>
  Claim C8. Running the teardown twice leaves the state that running it once leaves; on a
  state whose four cells are all empty it changes nothing; and when the session's
  \<^verbatim>\<open>close()\<close> raises, the teardown still empties every cell and makes every release
  call, ending in the state it reaches with a session whose \<^verbatim>\<open>close()\<close> returns.
\<close>

theorem stopListeningInternal_idempotent_total:
  "stopListeningInternal (stopListeningInternal s) = stopListeningInternal s \<and>
   (refs_null s0 \<longrightarrow> stopListeningInternal s0 = s0) \<and>
   (sessionRef s1 = Some h \<and> fst (session_close h s1) = Inl () \<longrightarrow>
      refs_null (stopListeningInternal s1) \<and>
      effects (stopListeningInternal s1) = effects s1 @ release_calls s1 \<and>
      stopListeningInternal s1 =
        stopListeningInternal (s1\<lparr>sessionRef := Some (h\<lparr>close_throws := False\<rparr>)\<rparr>))"
  by (simp add: stopListeningInternal_eq release_calls_def refs_null_def)

theorem stopListeningInternal_idempotent_total_witness:
  "stopListeningInternal initial = initial \<and>
   fst (session_close throwing_session capturing) = Inl () \<and>
   refs_null (stopListeningInternal capturing) \<and>
   effects (stopListeningInternal capturing) =
     [SessionClose 3, Disconnect 5, TrackStop 7, TrackStop 8, ContextClose 1] \<and>
   stopListeningInternal (stopListeningInternal capturing) = stopListeningInternal capturing"
  using stopListeningInternal_idempotent_total [of capturing initial capturing throwing_session]
  by (simp add: refs_null_def initial_def capturing_def throwing_session_def
      session_close_def release_calls_def stopListeningInternal_eq)

subsection \<open>Leaving the Listening phase\<close>

lemma stopListening_eq:
  "stopListening v s =
     (if truthy (trim (transcriptRef s))
      then optimizePrompt_begin v (trim (transcriptRef s)) (stopListeningInternal s)
      else (stopListeningInternal s)\<lparr>status := IDLE\<rparr>)"
  by (simp add: stopListening_def Let_def)

text \<open>
  What the stop path and the error path do: \<open>stopListening\<close> and \<open>handleError\<close> (also
  reached from \<open>onerror\<close>) leave the Listening status, empty the four cells and make the
  release call of each resource the cells held. A resource that no cell holds is not
  reached by them.
\<close>

lemma stopListening_released: "left_and_released s (stopListening v s)"
  by (auto simp add: stopListening_eq left_and_released_def refs_null_def new_effects_def
      optimizePrompt_begin_def perform_def stopListeningInternal_eq)

lemma handleError_released: "left_and_released s (handleError msg s)"
  by (simp add: handleError_eq left_and_released_def refs_null_def new_effects_def)

lemma onerror_released: "left_and_released s (onerror v h e s)"
  by (auto simp add: onerror_def handleError_eq left_and_released_def refs_null_def new_effects_def
      handleSelectKey_call_def perform_def release_calls_def split: option.splits)

subsection \<open>The transcript buffer\<close>



lemma handleSelectKey_frame:
  "\<exists>k es. (handleSelectKey v h s = Completed (s\<lparr>needsApiKey := k, effects := es\<rparr>) \<or>
           handleSelectKey v h s = Aborted (s\<lparr>needsApiKey := k, effects := es\<rparr>))"
proof (cases "openSelectKey h")
  case None
  have "handleSelectKey v h s = Completed (s\<lparr>needsApiKey := needsApiKey s, effects := effects s\<rparr>)"
    using None by (simp add: handleSelectKey_def)
  then show ?thesis by blast
next
  case (Some p)
  show ?thesis
  proof (cases p)
    case (Resolves u)
    have "handleSelectKey v h s = Completed (s\<lparr>needsApiKey := False, effects := effects s @ [OpenSelectKey]\<rparr>)"
      using Some Resolves
      by (simp add: handleSelectKey_def handleSelectKey_settled_def handleSelectKey_call_def perform_def)
    then show ?thesis by blast
  next
    case Rejects
    have "handleSelectKey v h s = Completed (s\<lparr>needsApiKey := needsApiKey s, effects := effects s @ [OpenSelectKey]\<rparr>)
        \<or> handleSelectKey v h s = Aborted (s\<lparr>needsApiKey := needsApiKey s, effects := effects s @ [OpenSelectKey]\<rparr>)"
      using Some Rejects
      by (simp add: handleSelectKey_def handleSelectKey_settled_def handleSelectKey_call_def
          perform_def Let_def)
    then show ?thesis by blast
  qed
qed

lemma checkKeyFirst_frame:
  "\<exists>k es. (checkKeyFirst h s = Completed (s\<lparr>needsApiKey := k, effects := es\<rparr>) \<or>
           checkKeyFirst h s = Aborted (s\<lparr>needsApiKey := k, effects := es\<rparr>))"
proof -
  have triv: "s = s\<lparr>needsApiKey := needsApiKey s, effects := effects s\<rparr>" by simp
  show ?thesis
  proof (cases "hasSelectedApiKey h")
    case None
    then have "checkKeyFirst h s = Completed s" by (simp add: checkKeyFirst_def)
    then show ?thesis using triv by metis
  next
    case (Some p)
    show ?thesis
    proof (cases p)
      case Rejects
      then have "checkKeyFirst h s = Aborted s" using Some by (simp add: checkKeyFirst_def)
      then show ?thesis using triv by metis
    next
      case (Resolves b)
      show ?thesis
      proof (cases b)
        case True
        then have "checkKeyFirst h s = Completed s" using Some Resolves by (simp add: checkKeyFirst_def)
        then show ?thesis using triv by metis
      next
        case False
        then have "checkKeyFirst h s = handleSelectKey Rev1 h s"
          using Some Resolves by (simp add: checkKeyFirst_def)
        then show ?thesis using handleSelectKey_frame [of Rev1 h s] by simp
      qed
    qed
  qed
qed

lemma startListening_connected:
  assumes "snd (startListening v h env s) = Some c"
  shows "transcriptRef (fst (startListening v h env s)) = [] \<and> captured_status c = status s"
proof (cases v)
  case Rev1
  obtain k es where
    "checkKeyFirst h s = Completed (s\<lparr>needsApiKey := k, effects := es\<rparr>) \<or>
     checkKeyFirst h s = Aborted (s\<lparr>needsApiKey := k, effects := es\<rparr>)"
    using checkKeyFirst_frame by blast
  then show ?thesis using assms Rev1
    by (auto simp add: Let_def reset_capture_def split: option.splits if_splits)
next
  case Rev2
  obtain k es where
    "handleSelectKey Rev2 h s = Completed (s\<lparr>needsApiKey := k, effects := es\<rparr>) \<or>
     handleSelectKey Rev2 h s = Aborted (s\<lparr>needsApiKey := k, effects := es\<rparr>)"
    using handleSelectKey_frame by blast
  then show ?thesis using assms Rev2
    by (auto simp add: Let_def reset_capture_def split: option.splits if_splits)
qed


lemmas handler_defs = checkKey_def handleSelectKey_call_def handleSelectKey_settled_def
  optimizePrompt_begin_def optimizePrompt_chunk_def optimizePrompt_end_def
  optimizePrompt_catch_def handleError_eq onopen_def onaudioprocess_def onmessage_def
  onerror_def onclose_def stopListening_eq stopListeningInternal_eq handleRegenerate_def
  perform_def Let_def






subsection \<open>Stopping a capture\<close>

lemma release_calls_no_request: "concat (map request_of (release_calls s)) = []"
  by (auto simp add: release_calls_def split: option.splits)

lemma submitted_stopListeningInternal: "submitted (stopListeningInternal s) = submitted s"
  by (simp add: submitted_def stopListeningInternal_eq release_calls_no_request)

text \<open>
  Claim C4, as amended. \<open>stopListening\<close>, which the stop control calls and the close
  callback calls when it acts, looks at the trimmed buffer: when that is not empty the
  status becomes Optimizing and one refinement request is made, with the trimmed buffer as
  its input; when the buffer is empty or whitespace only the status becomes Idle and no
  request is made.
\<close>

theorem stopListening_branches_on_trimmed_buffer:
  "(truthy (trim (transcriptRef s)) \<longrightarrow>
      status (stopListening v s) = OPTIMIZING \<and>
      submitted (stopListening v s) = submitted s @ [trim (transcriptRef s)]) \<and>
   (\<not> truthy (trim (transcriptRef s)) \<longrightarrow>
      status (stopListening v s) = IDLE \<and>
      submitted (stopListening v s) = submitted s) \<and>
   (onclose v c s = s \<or> onclose v c s = stopListening v s)"
  using submitted_stopListeningInternal [of s]
  by (simp add: stopListening_eq optimizePrompt_begin_def perform_def submitted_def onclose_def)

theorem stopListening_branches_on_trimmed_buffer_witness:
  "truthy (trim (transcriptRef (heard (ascii '' hi '')))) \<and>
   status (stopListening Rev1 (heard (ascii '' hi ''))) = OPTIMIZING \<and>
   submitted (stopListening Rev1 (heard (ascii '' hi ''))) = [ascii ''hi''] \<and>
   \<not> truthy (trim (transcriptRef (heard [0x0020]))) \<and>
   status (stopListening Rev1 (heard [0x0020])) = IDLE \<and>
   submitted (stopListening Rev1 (heard [0x0020])) = []"
  using stopListening_branches_on_trimmed_buffer [of "heard (ascii '' hi '')" Rev1 listening_connection]
    stopListening_branches_on_trimmed_buffer [of "heard [0x0020]" Rev1 listening_connection]
  by (simp add: heard_def capturing_def initial_def trim_def isWhiteSpace_def truthy_def
      submitted_def ascii_def)

text \<open>
  The claim as first stated fails: a buffer holding one space is not empty, yet stopping
  goes to Idle without a request; and for the buffer \<open>'' hi ''\<close> the request carries
  \<open>''hi''\<close>, not the buffer content.
\<close>

theorem stop_with_nonempty_buffer_counterexample:
  "transcriptRef (heard [0x0020]) \<noteq> [] \<and>
   status (stopListening Rev1 (heard [0x0020])) = IDLE \<and>
   submitted (stopListening Rev1 (heard [0x0020])) = submitted (heard [0x0020]) \<and>
   transcriptRef (heard (ascii '' hi '')) \<noteq> [] \<and>
   submitted (stopListening Rev1 (heard (ascii '' hi ''))) \<noteq>
     submitted (heard (ascii '' hi '')) @ [transcriptRef (heard (ascii '' hi ''))]"
  by (simp add: stopListening_eq trim_def isWhiteSpace_def truthy_def heard_def capturing_def
      initial_def optimizePrompt_begin_def perform_def stopListeningInternal_eq submitted_def
      release_calls_def throwing_session_def ascii_def)

subsection \<open>The close callback\<close>

lemmas run_simps = run_def step_def checkKeyFirst_def reset_capture_def onopen_def
  onaudioprocess_def onmessage_def onclose_def perform_def ToString_def Let_def
  bare_host_def granting_def initial_def fragment_message_def

text \<open>
  Claim C5 at a concrete run. A capture is started from the initial state, the session
  opens, an audio frame is sent, the fragment \<open>''hi''\<close> arrives, and then the session
  closes while the status is Listening. The close callback compares the \<^verbatim>\<open>status\<close> its
  closure holds, which is the Idle of the render that started the capture, so it does
  nothing: the state is the one before the close, still Listening, the resources still
  held, and no refinement request made.
\<close>

theorem close_while_listening_is_ignored:
  "status (run Rev2 bare_host
      [ClickStart granting, OnOpen 5, OnAudioProcess, OnMessage (fragment_message (ascii ''hi''))]
      initial) = LISTENING \<and>
   run Rev2 bare_host
      [ClickStart granting, OnOpen 5, OnAudioProcess, OnMessage (fragment_message (ascii ''hi'')),
       OnClose] initial =
   run Rev2 bare_host
      [ClickStart granting, OnOpen 5, OnAudioProcess, OnMessage (fragment_message (ascii ''hi''))]
      initial \<and>
   status (run Rev2 bare_host
      [ClickStart granting, OnOpen 5, OnAudioProcess, OnMessage (fragment_message (ascii ''hi'')),
       OnClose] initial) = LISTENING \<and>
   \<not> refs_null (run Rev2 bare_host
      [ClickStart granting, OnOpen 5, OnAudioProcess, OnMessage (fragment_message (ascii ''hi'')),
       OnClose] initial) \<and>
   submitted (run Rev2 bare_host
      [ClickStart granting, OnOpen 5, OnAudioProcess, OnMessage (fragment_message (ascii ''hi'')),
       OnClose] initial) = []"
  by (simp add: run_simps refs_null_def submitted_def)

text \<open>
  The same holds in every state the component can reach: the start control is rendered
  only outside Listening, so no closure ever holds the Listening status, and a close event
  changes nothing.
\<close>

lemma startListening_live: "live (fst (startListening v h env s)) = live s"
proof (cases v)
  case Rev1
  obtain k es where
    "checkKeyFirst h s = Completed (s\<lparr>needsApiKey := k, effects := es\<rparr>) \<or>
     checkKeyFirst h s = Aborted (s\<lparr>needsApiKey := k, effects := es\<rparr>)"
    using checkKeyFirst_frame by blast
  then show ?thesis using Rev1
    by (auto simp add: Let_def reset_capture_def handleError_eq split: option.splits)
next
  case Rev2
  obtain k es where
    "handleSelectKey Rev2 h s = Completed (s\<lparr>needsApiKey := k, effects := es\<rparr>) \<or>
     handleSelectKey Rev2 h s = Aborted (s\<lparr>needsApiKey := k, effects := es\<rparr>)"
    using handleSelectKey_frame by blast
  then show ?thesis using Rev2
    by (auto simp add: Let_def reset_capture_def handleError_eq split: option.splits)
qed

lemma handleManualSubmit_live: "live (handleManualSubmit h s) = live s"
proof -
  obtain k es where
    "checkKeyFirst h s = Completed (s\<lparr>needsApiKey := k, effects := es\<rparr>) \<or>
     checkKeyFirst h s = Aborted (s\<lparr>needsApiKey := k, effects := es\<rparr>)"
    using checkKeyFirst_frame by blast
  then show ?thesis
    by (auto simp add: handleManualSubmit_def optimizePrompt_begin_def perform_def)
qed

lemma fire_live: "is_start e \<or> live (fire v h e s) = live s"
  by (cases e)
     (auto simp add: handler_defs handleManualSubmit_live
        split: option.splits prod.splits promise.splits revision.splits)

lemma step_stale: "callbacks_stale s \<Longrightarrow> callbacks_stale (step v h e s)"
proof (cases "is_start e")
  case False
  assume "callbacks_stale s"
  then show ?thesis using fire_live [of e v h s] False
    by (simp add: step_def callbacks_stale_def)
next
  case True
  assume stale: "callbacks_stale s"
  from True obtain env where e: "e = ClickStart env" by (cases e) auto
  show ?thesis
  proof (cases "enabled v e s")
    case False
    then show ?thesis using stale by (simp add: step_def)
  next
    case True
    then have idle: "status s \<noteq> LISTENING" using e by simp
    obtain s' c where sl: "startListening v h env s = (s', c)" by (cases "startListening v h env s")
    show ?thesis
    proof (cases c)
      case None
      have "live s' = live s" using startListening_live [of v h env s] sl by simp
      then show ?thesis using stale True e sl None by (simp add: step_def callbacks_stale_def)
    next
      case (Some conn)
      have "captured_status conn = status s"
        using startListening_connected [of v h env s conn] sl Some by simp
      then show ?thesis using idle True e sl Some by (simp add: step_def callbacks_stale_def)
    qed
  qed
qed

lemma run_stale: "callbacks_stale s \<Longrightarrow> callbacks_stale (run v h es s)"
proof (induction es arbitrary: s)
  case Nil
  then show ?case by (simp add: run_def)
next
  case (Cons e es)
  have "run v h (e # es) s = run v h es (step v h e s)" by (simp add: run_def)
  then show ?case using Cons.IH [OF step_stale [OF Cons.prems]] by simp
qed

lemma close_never_acts: "step v h OnClose (run v h es initial) = run v h es initial"
proof -
  have "callbacks_stale (run v h es initial)"
    by (rule run_stale) (simp add: callbacks_stale_def initial_def)
  then show ?thesis
    by (simp add: step_def callbacks_stale_def onclose_def split: option.splits)
qed

text \<open>
  Claim C1 at a concrete run. A capture is started from the initial state, the session
  opens, one audio frame is sent, and the session closes while the status is Listening.
  The close callback does nothing (its closure holds the Idle of the render that started
  the capture), so this way out of a live session releases nothing: the status is still
  Listening, the session cell, the processor cell, the stream cell and the audio-context
  cell all still hold their resources, no release call has been made, and the next audio
  frame is still processed and sent.
\<close>

theorem close_while_listening_releases_nothing:
  "status (run Rev1 bare_host [ClickStart granting, OnOpen 5, OnAudioProcess, OnClose] initial) =
     LISTENING \<and>
   sessionRef (run Rev1 bare_host [ClickStart granting, OnOpen 5, OnAudioProcess, OnClose] initial) =
     Some \<lparr> session_id = 3, close_throws = False \<rparr> \<and>
   scriptProcessorRef
     (run Rev1 bare_host [ClickStart granting, OnOpen 5, OnAudioProcess, OnClose] initial) =
     Some 5 \<and>
   streamRef (run Rev1 bare_host [ClickStart granting, OnOpen 5, OnAudioProcess, OnClose] initial) =
     Some \<lparr> tracks = [7] \<rparr> \<and>
   audioContextRef
     (run Rev1 bare_host [ClickStart granting, OnOpen 5, OnAudioProcess, OnClose] initial) =
     Some \<lparr> context_id = 1, state = running \<rparr> \<and>
   effects (run Rev1 bare_host [ClickStart granting, OnOpen 5, OnAudioProcess, OnClose] initial) =
     [SendRealtimeInput 3] \<and>
   effects
     (run Rev1 bare_host [ClickStart granting, OnOpen 5, OnAudioProcess, OnClose, OnAudioProcess]
        initial) =
     [SendRealtimeInput 3, SendRealtimeInput 3]"
  by (simp add: run_simps)

text \<open>
  Two further runs that leave resources unreleased. In the first revision, typed text
  submitted between the start click and the opening of the session takes the status from
  Listening to Optimizing with the processor, the stream and the audio context still held.
  A capture stopped before its first audio frame empties the cells, but the session was
  never stored in the session cell, so no call closes it.
\<close>

lemma typed_submit_leaves_listening_unreleased:
  "status (run Rev1 bare_host
      [ClickStart granting, SetInputMode text_mode, ChangeManualText (ascii ''x''), OnOpen 5]
      initial) = LISTENING \<and>
   status (run Rev1 bare_host
      [ClickStart granting, SetInputMode text_mode, ChangeManualText (ascii ''x''), OnOpen 5,
       ClickSubmit] initial) = OPTIMIZING \<and>
   scriptProcessorRef (run Rev1 bare_host
      [ClickStart granting, SetInputMode text_mode, ChangeManualText (ascii ''x''), OnOpen 5,
       ClickSubmit] initial) = Some 5 \<and>
   streamRef (run Rev1 bare_host
      [ClickStart granting, SetInputMode text_mode, ChangeManualText (ascii ''x''), OnOpen 5,
       ClickSubmit] initial) = Some \<lparr> tracks = [7] \<rparr> \<and>
   audioContextRef (run Rev1 bare_host
      [ClickStart granting, SetInputMode text_mode, ChangeManualText (ascii ''x''), OnOpen 5,
       ClickSubmit] initial) = Some \<lparr> context_id = 1, state = running \<rparr> \<and>
   effects (run Rev1 bare_host
      [ClickStart granting, SetInputMode text_mode, ChangeManualText (ascii ''x''), OnOpen 5,
       ClickSubmit] initial) = [GenerateContentStream (ascii ''x'')]"
  by (simp add: run_simps handleManualSubmit_def optimizePrompt_begin_def trim_def
      isWhiteSpace_def truthy_def ascii_def)

lemma stop_before_first_frame_leaves_session_open:
  "live (run Rev1 bare_host [ClickStart granting, OnOpen 5, ClickStop] initial) =
     Some listening_connection \<and>
   session_id (conn_session listening_connection) = 3 \<and>
   status (run Rev1 bare_host [ClickStart granting, OnOpen 5, ClickStop] initial) = IDLE \<and>
   refs_null (run Rev1 bare_host [ClickStart granting, OnOpen 5, ClickStop] initial) \<and>
   effects (run Rev1 bare_host [ClickStart granting, OnOpen 5, ClickStop] initial) =
     [Disconnect 5, TrackStop 7, ContextClose 1]"
  by (simp add: run_simps stopListening_eq stopListeningInternal_eq release_calls_def
      refs_null_def listening_connection_def trim_def truthy_def)

subsection \<open>Refinement and the history\<close>

lemma lookup_call_Some:
  "lookup_call n s = Some x \<longleftrightarrow> n < length (calls s) \<and> calls s ! n = Some x"
  by (simp add: lookup_call_def)

lemma optimizePrompt_chunk_eq:
  assumes "lookup_call n s = Some (raw, f)"
  shows "\<exists>d. optimizePrompt_chunk v n c s =
           s\<lparr>calls := (calls s)[n := Some (raw, accumulate v f [c])], optimizedPrompt := d\<rparr>"
proof (cases "v = Rev1 \<and> \<not> text_truthy c")
  case True
  have same: "(calls s)[n := Some (raw, f)] = calls s"
    using assms by (simp add: lookup_call_Some list_update_same_conv)
  have "optimizePrompt_chunk v n c s =
          s\<lparr>calls := (calls s)[n := Some (raw, accumulate v f [c])], optimizedPrompt := optimizedPrompt s\<rparr>"
    using assms True same by (simp add: optimizePrompt_chunk_def accumulate_def)
  then show ?thesis by blast
next
  case False
  have "optimizePrompt_chunk v n c s =
          s\<lparr>calls := (calls s)[n := Some (raw, accumulate v f [c])], optimizedPrompt := f @ ToString c\<rparr>"
    using assms False by (cases v) (auto simp add: optimizePrompt_chunk_def accumulate_def Let_def)
  then show ?thesis by blast
qed

lemma accumulate_Cons: "accumulate v f (c # cs) = accumulate v (accumulate v f [c]) cs"
  by (cases v) (simp_all add: accumulate_def)

lemma fold_chunks:
  "lookup_call n s = Some (raw, f) \<Longrightarrow>
   \<exists>d. fold (optimizePrompt_chunk v n) cs s =
         s\<lparr>calls := (calls s)[n := Some (raw, accumulate v f cs)], optimizedPrompt := d\<rparr>"
proof (induction cs arbitrary: s f)
  case Nil
  have "(calls s)[n := Some (raw, f)] = calls s"
    using Nil by (simp add: lookup_call_Some list_update_same_conv)
  then have "fold (optimizePrompt_chunk v n) [] s =
      s\<lparr>calls := (calls s)[n := Some (raw, accumulate v f [])], optimizedPrompt := optimizedPrompt s\<rparr>"
    by (cases v) (simp_all add: accumulate_def)
  then show ?case by blast
next
  case (Cons c cs)
  obtain d where step: "optimizePrompt_chunk v n c s =
      s\<lparr>calls := (calls s)[n := Some (raw, accumulate v f [c])], optimizedPrompt := d\<rparr>"
    using optimizePrompt_chunk_eq [OF Cons.prems] by blast
  let ?s1 = "optimizePrompt_chunk v n c s"
  have look: "lookup_call n ?s1 = Some (raw, accumulate v f [c])"
    using Cons.prems by (simp add: step lookup_call_Some)
  obtain d' where rest: "fold (optimizePrompt_chunk v n) cs ?s1 =
      ?s1\<lparr>calls := (calls ?s1)[n := Some (raw, accumulate v (accumulate v f [c]) cs)],
           optimizedPrompt := d'\<rparr>"
    using Cons.IH [OF look] by blast
  have "fold (optimizePrompt_chunk v n) (c # cs) s =
      s\<lparr>calls := (calls s)[n := Some (raw, accumulate v f (c # cs))], optimizedPrompt := d'\<rparr>"
    using rest by (simp add: step accumulate_Cons [of v f c cs])
  then show ?case by blast
qed

lemma optimizePrompt_loop:
  "\<exists>d. fold (optimizePrompt_chunk v (length (calls s))) cs (optimizePrompt_begin v raw s) =
     (optimizePrompt_begin v raw s)
       \<lparr>calls := calls s @ [Some (raw, accumulate v [] cs)], optimizedPrompt := d\<rparr>"
proof -
  let ?s1 = "optimizePrompt_begin v raw s"
  have c1: "calls ?s1 = calls s @ [Some (raw, [])]"
    by (simp add: optimizePrompt_begin_def perform_def)
  then have "lookup_call (length (calls s)) ?s1 = Some (raw, [])"
    by (simp add: lookup_call_Some)
  then obtain d where "fold (optimizePrompt_chunk v (length (calls s))) cs ?s1 =
      ?s1\<lparr>calls := (calls ?s1)[length (calls s) := Some (raw, accumulate v [] cs)],
           optimizedPrompt := d\<rparr>"
    using fold_chunks by blast
  then have "fold (optimizePrompt_chunk v (length (calls s))) cs ?s1 =
      ?s1\<lparr>calls := calls s @ [Some (raw, accumulate v [] cs)], optimizedPrompt := d\<rparr>"
    by (simp add: c1)
  then show ?thesis by blast
qed

lemma optimizePrompt_after_loop:
  "\<exists>s2. optimizePrompt v h raw r now_id now_ts s =
          (case failure r of
             None \<Rightarrow> optimizePrompt_end (length (calls s)) now_id now_ts s2
           | Some err \<Rightarrow> optimizePrompt_catch v h (length (calls s)) err s2) \<and>
        lookup_call (length (calls s)) s2 = Some (raw, accumulate v [] (chunks r)) \<and>
        (\<exists>d. s2 = (optimizePrompt_begin v raw s)
                \<lparr>calls := calls s @ [Some (raw, accumulate v [] (chunks r))],
                 optimizedPrompt := d\<rparr>)"
proof -
  let ?s2 = "fold (optimizePrompt_chunk v (length (calls s))) (chunks r) (optimizePrompt_begin v raw s)"
  obtain d where loop: "?s2 =
     (optimizePrompt_begin v raw s)
       \<lparr>calls := calls s @ [Some (raw, accumulate v [] (chunks r))], optimizedPrompt := d\<rparr>"
    using optimizePrompt_loop by blast
  have "optimizePrompt v h raw r now_id now_ts s =
          (case failure r of
             None \<Rightarrow> optimizePrompt_end (length (calls s)) now_id now_ts ?s2
           | Some err \<Rightarrow> optimizePrompt_catch v h (length (calls s)) err ?s2)"
    by (simp add: optimizePrompt_def Let_def)
  moreover have "lookup_call (length (calls s)) ?s2 = Some (raw, accumulate v [] (chunks r))"
    by (subst loop) (simp add: lookup_call_Some)
  ultimately show ?thesis using loop by blast
qed

lemma optimizePrompt_history:
  "history (optimizePrompt v h raw r now_id now_ts s) =
     (case failure r of
        None \<Rightarrow> \<lparr> id' = toString now_id, timestamp = now_ts, rawInput = raw,
                   HistoryItem.optimizedPrompt = accumulate v [] (chunks r) \<rparr> # history s
      | Some err \<Rightarrow> history s)"
proof -
  obtain s2 d where
    run: "optimizePrompt v h raw r now_id now_ts s =
          (case failure r of
             None \<Rightarrow> optimizePrompt_end (length (calls s)) now_id now_ts s2
           | Some err \<Rightarrow> optimizePrompt_catch v h (length (calls s)) err s2)" and
    look: "lookup_call (length (calls s)) s2 = Some (raw, accumulate v [] (chunks r))" and
    s2: "s2 = (optimizePrompt_begin v raw s)
                \<lparr>calls := calls s @ [Some (raw, accumulate v [] (chunks r))],
                 optimizedPrompt := d\<rparr>"
    using optimizePrompt_after_loop [of v h raw r now_id now_ts s] by blast
  have hist: "history s2 = history s"
    by (simp add: s2 optimizePrompt_begin_def perform_def)
  show ?thesis
  proof (cases "failure r")
    case None
    then show ?thesis using look hist by (simp add: run optimizePrompt_end_def)
  next
    case (Some err)
    then show ?thesis using look hist run
      by (cases v)
         (simp_all add: optimizePrompt_catch_def handleError_eq handleSelectKey_call_def
          perform_def Let_def split: option.splits)
  qed
qed

lemma accumulate1_deltas: "accumulate1 f (map Some ds) = f @ concat ds"
  by (induction ds arbitrary: f) (simp_all add: text_truthy_def truthy_def ToString_def)

lemma accumulate2_deltas: "accumulate2 f (map Some ds) = f @ concat ds"
  by (induction ds arbitrary: f) (simp_all add: ToString_def)

lemma accumulate_deltas: "accumulate v f (map Some ds) = f @ concat ds"
  by (cases v) (simp_all add: accumulate_def accumulate1_deltas accumulate2_deltas)

text \<open>
  Claim C2. One activation of \<open>optimizePrompt\<close> over a whole response: when the stream
  ends without an error, exactly one item is put in front of the history, whose
  \<open>rawInput\<close> is the input of the call and whose \<open>optimizedPrompt\<close> is the text the
  loop accumulated; when the stream raises, the history is the one before the call, so not
  even a partial item is stored. For a stream of text deltas \<open>ds\<close> the accumulated text is
  their concatenation in order, in both revisions.
\<close>

theorem history_item_iff_stream_completes:
  "history (optimizePrompt v h raw r now_id now_ts s) =
     (case failure r of
        None \<Rightarrow> \<lparr> id' = toString now_id, timestamp = now_ts, rawInput = raw,
                   HistoryItem.optimizedPrompt = accumulate v [] (chunks r) \<rparr> # history s
      | Some err \<Rightarrow> history s) \<and>
   accumulate v [] (map Some ds) = concat ds"
  by (simp add: optimizePrompt_history accumulate_deltas)

lemma toString_example: "toString 1700000000000 = ascii ''1700000000000''"
  by (simp add: toString_def digits.simps digit_def ascii_def)

theorem history_item_iff_stream_completes_witness:
  "history (optimizePrompt Rev1 bare_host (ascii ''Write a poem'')
      \<lparr> chunks = [Some (ascii ''# Poem'' @ [0x000A]), Some (ascii ''...'')], failure = None \<rparr>
      1700000000000 1700000000000 initial) =
     [\<lparr> id' = ascii ''1700000000000'', timestamp = 1700000000000,
        rawInput = ascii ''Write a poem'',
        HistoryItem.optimizedPrompt = ascii ''# Poem'' @ [0x000A] @ ascii ''...'' \<rparr>] \<and>
   history (optimizePrompt Rev1 bare_host (ascii ''Write a poem'')
      \<lparr> chunks = [Some (ascii ''# Poem'' @ [0x000A])], failure = Some None \<rparr>
      1700000000000 1700000000000 initial) = []"
  using history_item_iff_stream_completes [of Rev1 bare_host "ascii ''Write a poem''"
      "\<lparr> chunks = [Some (ascii ''# Poem'' @ [0x000A]), Some (ascii ''...'')], failure = None \<rparr>"
      1700000000000 1700000000000 initial "[]"]
    history_item_iff_stream_completes [of Rev1 bare_host "ascii ''Write a poem''"
      "\<lparr> chunks = [Some (ascii ''# Poem'' @ [0x000A])], failure = Some None \<rparr>"
      1700000000000 1700000000000 initial "[]"]
  by (simp add: toString_example accumulate_def text_truthy_def truthy_def ToString_def
      initial_def)

lemma accumulate_agree_on_text: "accumulate1 f (map Some ds) = accumulate2 f (map Some ds)"
  by (simp add: accumulate1_deltas accumulate2_deltas)

text \<open>
  Claim C10 at a concrete stream. For a chunk without text the first revision's loop
  appends nothing and the second revision's loop appends the word "undefined", so the two
  loops are not equal as functions. (On streams whose chunks all carry text they agree:
  \<open>accumulate_agree_on_text\<close>.)
\<close>

theorem accumulation_differs_without_text:
  "accumulate1 [] [None] = [] \<and>
   accumulate2 [] [None] = ascii ''undefined'' \<and>
   accumulate1 [] [Some (ascii ''a''), None] = ascii ''a'' \<and>
   accumulate2 [] [Some (ascii ''a''), None] = ascii ''aundefined'' \<and>
   accumulate1 [] [None] \<noteq> accumulate2 [] [None]"
  by (simp add: text_truthy_def truthy_def ToString_def ascii_def)

subsection \<open>Credential errors\<close>

lemma entity_not_found_needle: "entity_not_found (Some needle)"
  by (simp add: entity_not_found_def message_includes_def needle_def ascii_def)

lemma onerror_credential:
  "entity_not_found e \<Longrightarrow>
   onerror v h e s =
     s\<lparr>needsApiKey := True, error := Some (msg_voice v), status := ERROR, sessionRef := None,
       scriptProcessorRef := None, streamRef := None, audioContextRef := None,
       effects := effects s @ select_key_calls h @ release_calls s\<rparr>"
  by (simp add: onerror_def handleError_eq handleSelectKey_call_def perform_def
      select_key_calls_def release_calls_def split: option.splits)

lemma optimizePrompt_credential:
  assumes "entity_not_found e"
  shows "\<exists>d. optimizePrompt v h raw \<lparr> chunks = cs, failure = Some e \<rparr> now_id now_ts s =
     s\<lparr>needsApiKey := True, error := Some (msg_refine_credential v), status := ERROR,
       optimizedPrompt := d, calls := calls s @ [None],
       sessionRef := None, scriptProcessorRef := None, streamRef := None,
       audioContextRef := None,
       effects := effects s @ [GenerateContentStream raw] @ select_key_calls h @ release_calls s\<rparr>"
proof -
  let ?r = "\<lparr> chunks = cs, failure = Some e \<rparr>"
  obtain s2 d where
    run: "optimizePrompt v h raw ?r now_id now_ts s =
            optimizePrompt_catch v h (length (calls s)) e s2" and
    look: "lookup_call (length (calls s)) s2 = Some (raw, accumulate v [] cs)" and
    s2: "s2 = (optimizePrompt_begin v raw s)
                \<lparr>calls := calls s @ [Some (raw, accumulate v [] cs)], optimizedPrompt := d\<rparr>"
    using optimizePrompt_after_loop [of v h raw ?r now_id now_ts s] by auto
  have "optimizePrompt_catch v h (length (calls s)) e s2 =
     s\<lparr>needsApiKey := True, error := Some (msg_refine_credential v), status := ERROR,
       optimizedPrompt := d, calls := calls s @ [None],
       sessionRef := None, scriptProcessorRef := None, streamRef := None,
       audioContextRef := None,
       effects := effects s @ [GenerateContentStream raw] @ select_key_calls h @ release_calls s\<rparr>"
    using assms look
    by (cases v)
       (simp_all add: s2 optimizePrompt_catch_def handleError_eq handleSelectKey_call_def
        perform_def Let_def optimizePrompt_begin_def msg_refine_credential_def
        select_key_calls_def release_calls_def split: option.splits)
  then show ?thesis using run by auto
qed

text \<open>
  Claim C7, as amended. When the message of a voice-session error or of a refinement error
  contains "Requested entity was not found.", the handler sets \<open>needsApiKey\<close>, calls the
  host's credential selection when the host has that capability (and makes no such call
  when it has not), and leaves the status Error with the revision's message; the calls it
  makes are that one and the release calls of the teardown (after the request itself, for a
  refinement).
\<close>

theorem credential_error_flags_and_reports:
  "entity_not_found e \<longrightarrow>
     needsApiKey (onerror v h e s) \<and>
     status (onerror v h e s) = ERROR \<and>
     error (onerror v h e s) = Some (msg_voice v) \<and>
     new_effects s (onerror v h e s) = select_key_calls h @ release_calls s \<and>
     needsApiKey (optimizePrompt v h raw \<lparr> chunks = cs, failure = Some e \<rparr> now_id now_ts s) \<and>
     status (optimizePrompt v h raw \<lparr> chunks = cs, failure = Some e \<rparr> now_id now_ts s) = ERROR \<and>
     error (optimizePrompt v h raw \<lparr> chunks = cs, failure = Some e \<rparr> now_id now_ts s) =
       Some (msg_refine_credential v) \<and>
     new_effects s (optimizePrompt v h raw \<lparr> chunks = cs, failure = Some e \<rparr> now_id now_ts s) =
       [GenerateContentStream raw] @ select_key_calls h @ release_calls s"
proof
  assume e: "entity_not_found e"
  obtain d where "optimizePrompt v h raw \<lparr> chunks = cs, failure = Some e \<rparr> now_id now_ts s =
     s\<lparr>needsApiKey := True, error := Some (msg_refine_credential v), status := ERROR,
       optimizedPrompt := d, calls := calls s @ [None],
       sessionRef := None, scriptProcessorRef := None, streamRef := None,
       audioContextRef := None,
       effects := effects s @ [GenerateContentStream raw] @ select_key_calls h @ release_calls s\<rparr>"
    using optimizePrompt_credential [OF e] by blast
  then show "needsApiKey (onerror v h e s) \<and>
     status (onerror v h e s) = ERROR \<and>
     error (onerror v h e s) = Some (msg_voice v) \<and>
     new_effects s (onerror v h e s) = select_key_calls h @ release_calls s \<and>
     needsApiKey (optimizePrompt v h raw \<lparr> chunks = cs, failure = Some e \<rparr> now_id now_ts s) \<and>
     status (optimizePrompt v h raw \<lparr> chunks = cs, failure = Some e \<rparr> now_id now_ts s) = ERROR \<and>
     error (optimizePrompt v h raw \<lparr> chunks = cs, failure = Some e \<rparr> now_id now_ts s) =
       Some (msg_refine_credential v) \<and>
     new_effects s (optimizePrompt v h raw \<lparr> chunks = cs, failure = Some e \<rparr> now_id now_ts s) =
       [GenerateContentStream raw] @ select_key_calls h @ release_calls s"
    by (simp add: onerror_credential [OF e] new_effects_def)
qed

theorem credential_error_flags_and_reports_witness:
  "entity_not_found (Some needle) \<and>
   needsApiKey (onerror Rev2 studio_host (Some needle) capturing) \<and>
   status (onerror Rev2 studio_host (Some needle) capturing) = ERROR \<and>
   error (onerror Rev2 studio_host (Some needle) capturing) = Some msg_voice2 \<and>
   new_effects capturing (onerror Rev2 studio_host (Some needle) capturing) =
     [OpenSelectKey, SessionClose 3, Disconnect 5, TrackStop 7, TrackStop 8, ContextClose 1] \<and>
   status (optimizePrompt Rev2 studio_host (ascii ''hi'') \<lparr> chunks = [], failure = Some (Some needle) \<rparr>
      1 1 initial) = ERROR \<and>
   new_effects initial (optimizePrompt Rev2 studio_host (ascii ''hi'')
      \<lparr> chunks = [], failure = Some (Some needle) \<rparr> 1 1 initial) =
     [GenerateContentStream (ascii ''hi''), OpenSelectKey]"
  using credential_error_flags_and_reports [of "Some needle" Rev2 studio_host capturing
      "ascii ''hi''" "[]" 1 1]
    credential_error_flags_and_reports [of "Some needle" Rev2 studio_host initial
      "ascii ''hi''" "[]" 1 1]
    entity_not_found_needle
  by (simp add: msg_voice_def select_key_calls_def studio_host_def release_calls_def
      capturing_def initial_def throwing_session_def)

text \<open>
  The claim as first stated fails on a host without the capability: the error is
  recognised, yet no credential selection is invoked.
\<close>

theorem credential_error_without_host_capability_counterexample:
  "entity_not_found (Some needle) \<and>
   OpenSelectKey \<notin> set (new_effects capturing (onerror Rev2 bare_host (Some needle) capturing)) \<and>
   OpenSelectKey \<notin> set (new_effects initial
     (optimizePrompt Rev2 bare_host (ascii ''hi'') \<lparr> chunks = [], failure = Some (Some needle) \<rparr>
        1 1 initial))"
proof -
  obtain d where "optimizePrompt Rev2 bare_host (ascii ''hi'')
       \<lparr> chunks = [], failure = Some (Some needle) \<rparr> 1 1 initial =
     initial\<lparr>needsApiKey := True, error := Some (msg_refine_credential Rev2), status := ERROR,
       optimizedPrompt := d, calls := calls initial @ [None],
       sessionRef := None, scriptProcessorRef := None, streamRef := None,
       audioContextRef := None,
       effects := effects initial @ [GenerateContentStream (ascii ''hi'')] @
         select_key_calls bare_host @ release_calls initial\<rparr>"
    using optimizePrompt_credential [OF entity_not_found_needle] by blast
  then show ?thesis
    by (simp add: entity_not_found_needle onerror_credential new_effects_def
        select_key_calls_def bare_host_def release_calls_def capturing_def initial_def
        throwing_session_def)
qed

subsection \<open>History identifiers\<close>

text \<open>The decimal rendering of a clock reading determines the reading.\<close>

lemma unat_digit: "d < 10 \<Longrightarrow> unat (digit d) = 48 + d"
proof -
  assume d: "d < 10"
  have "unat (digit d) = (48 + d) mod 2 ^ LENGTH(16)"
    unfolding digit_def by (rule unat_of_nat)
  then show ?thesis using d by simp
qed

lemma digit_inj:
  assumes "d < 10" and "d' < 10" and "digit d = digit d'"
  shows "d = d'"
proof -
  have "unat (digit d) = unat (digit d')" using assms(3) by (rule arg_cong)
  then have "48 + d = 48 + d'" by (simp only: unat_digit [OF assms(1)] unat_digit [OF assms(2)])
  then show ?thesis by simp
qed

lemma digits_small: "n < 10 \<Longrightarrow> digits n = [digit n]"
  by (simp add: digits.simps [of n])

lemma digits_large: "\<not> n < 10 \<Longrightarrow> digits n = digits (n div 10) @ [digit (n mod 10)]"
  by (simp add: digits.simps [of n])

lemma digits_nonempty: "digits n \<noteq> []"
  by (cases "n < 10") (simp_all add: digits_small digits_large)

lemma digit_not_minus: "d < 10 \<Longrightarrow> digit d \<noteq> 0x002D"
proof
  assume "d < 10" and "digit d = 0x002D"
  then have "unat (0x002D :: code_unit) = 48 + d" using unat_digit [of d] by simp
  then show False by simp
qed

lemma digits_no_minus: "c \<in> set (digits n) \<Longrightarrow> c \<noteq> 0x002D"
proof (induction n rule: digits.induct)
  case (1 n)
  show ?case
  proof (cases "n < 10")
    case True
    then have "c = digit n" using "1.prems" by (simp add: digits_small)
    then show ?thesis using True digit_not_minus by simp
  next
    case False
    then have "c \<in> set (digits (n div 10)) \<or> c = digit (n mod 10)"
      using "1.prems" by (auto simp add: digits_large)
    moreover have "digit (n mod 10) \<noteq> 0x002D" by (rule digit_not_minus) simp
    ultimately show ?thesis using "1.IH" [OF False] by auto
  qed
qed

lemma digits_inj: "digits n = digits m \<Longrightarrow> n = m"
proof (induction n arbitrary: m rule: digits.induct)
  case (1 n)
  show ?case
  proof (cases "n < 10")
    case True
    note n = digits_small [OF True]
    show ?thesis
    proof (cases "m < 10")
      case m: True
      have "digit n = digit m" using "1.prems" by (simp add: n digits_small [OF m])
      then show ?thesis by (rule digit_inj [OF True m])
    next
      case False
      have "[digit n] = digits (m div 10) @ [digit (m mod 10)]"
        using "1.prems" by (simp add: n digits_large [OF False])
      then have "digits (m div 10) = []" by simp
      then show ?thesis using digits_nonempty by blast
    qed
  next
    case False
    note n = digits_large [OF False]
    show ?thesis
    proof (cases "m < 10")
      case True
      have "digits (n div 10) @ [digit (n mod 10)] = [digit m]"
        using "1.prems" by (simp add: n digits_small [OF True])
      then have "digits (n div 10) = []" by simp
      then show ?thesis using digits_nonempty by blast
    next
      case m: False
      have "digits (n div 10) @ [digit (n mod 10)] = digits (m div 10) @ [digit (m mod 10)]"
        using "1.prems" by (simp add: n digits_large [OF m])
      then have a: "digits (n div 10) = digits (m div 10)"
        and b: "digit (n mod 10) = digit (m mod 10)" by simp_all
      have q: "n div 10 = m div 10" using "1.IH" [OF False a] .
      have r: "n mod 10 = m mod 10" by (rule digit_inj [OF _ _ b]) simp_all
      have "n = 10 * (n div 10) + n mod 10" by simp
      also have "\<dots> = 10 * (m div 10) + m mod 10" by (simp only: q r)
      also have "\<dots> = m" by simp
      finally show ?thesis .
    qed
  qed
qed

lemma hd_digits: "hd (digits n) \<noteq> 0x002D"
  using digits_no_minus [of "hd (digits n)" n] digits_nonempty [of n] by simp

lemma toString_inj:
  assumes eq: "toString i = toString j"
  shows "i = j"
proof (cases "i < 0")
  case True
  show ?thesis
  proof (cases "j < 0")
    case j: True
    have "digits (nat (- i)) = digits (nat (- j))" using eq True j by (simp add: toString_def)
    then have "nat (- i) = nat (- j)" by (rule digits_inj)
    then show ?thesis using True j by simp
  next
    case False
    have "digits (nat j) = 0x002D # digits (nat (- i))" using eq True False by (simp add: toString_def)
    then have "hd (digits (nat j)) = 0x002D" by simp
    then show ?thesis using hd_digits by blast
  qed
next
  case False
  show ?thesis
  proof (cases "j < 0")
    case True
    have "digits (nat i) = 0x002D # digits (nat (- j))" using eq True False by (simp add: toString_def)
    then have "hd (digits (nat i)) = 0x002D" by simp
    then show ?thesis using hd_digits by blast
  next
    case j: False
    have "digits (nat i) = digits (nat j)" using eq False j by (simp add: toString_def)
    then have "nat i = nat j" by (rule digits_inj)
    then show ?thesis using False j by simp
  qed
qed

text \<open>Only the end of a refinement stream changes the history, by one item at the front.\<close>

lemma startListening_history: "history (fst (startListening v h env s)) = history s"
proof (cases v)
  case Rev1
  obtain k es where
    "checkKeyFirst h s = Completed (s\<lparr>needsApiKey := k, effects := es\<rparr>) \<or>
     checkKeyFirst h s = Aborted (s\<lparr>needsApiKey := k, effects := es\<rparr>)"
    using checkKeyFirst_frame by blast
  then show ?thesis using Rev1
    by (auto simp add: Let_def reset_capture_def handleError_eq split: option.splits)
next
  case Rev2
  obtain k es where
    "handleSelectKey Rev2 h s = Completed (s\<lparr>needsApiKey := k, effects := es\<rparr>) \<or>
     handleSelectKey Rev2 h s = Aborted (s\<lparr>needsApiKey := k, effects := es\<rparr>)"
    using handleSelectKey_frame by blast
  then show ?thesis using Rev2
    by (auto simp add: Let_def reset_capture_def handleError_eq split: option.splits)
qed

lemma handleManualSubmit_history: "history (handleManualSubmit h s) = history s"
proof -
  obtain k es where
    "checkKeyFirst h s = Completed (s\<lparr>needsApiKey := k, effects := es\<rparr>) \<or>
     checkKeyFirst h s = Aborted (s\<lparr>needsApiKey := k, effects := es\<rparr>)"
    using checkKeyFirst_frame by blast
  then show ?thesis
    by (auto simp add: handleManualSubmit_def optimizePrompt_begin_def perform_def)
qed

lemma fire_history:
  "history (fire v h e s) = history s \<or>
   (\<exists>n a b raw f. e = StreamEnd n a b \<and>
      history (fire v h e s) =
        \<lparr> id' = toString a, timestamp = b, rawInput = raw,
           HistoryItem.optimizedPrompt = f \<rparr> # history s)"
proof (cases e)
  case (ClickStart env)
  then show ?thesis using startListening_history [of v h env s]
    by (cases "startListening v h env s") (auto split: option.splits)
next
  case (StreamEnd n a b)
  then show ?thesis
    by (auto simp add: optimizePrompt_end_def split: option.splits)
qed (auto simp add: handler_defs handleManualSubmit_history
        split: option.splits prod.splits promise.splits revision.splits)

lemma step_history:
  "history (step v h e s) = history s \<or>
   (\<exists>n a b raw f. e = StreamEnd n a b \<and>
      history (step v h e s) =
        \<lparr> id' = toString a, timestamp = b, rawInput = raw,
           HistoryItem.optimizedPrompt = f \<rparr> # history s)"
  using fire_history [of v h e s] by (simp add: step_def)

lemma run_Cons: "run v h (e # es) s = run v h es (step v h e s)"
  by (simp add: run_def)

lemma run_history_suffix: "suffix (history s) (history (run v h es s))"
proof (induction es arbitrary: s)
  case Nil
  show ?case by (simp add: run_def)
next
  case (Cons e es)
  have "suffix (history s) (history (step v h e s))"
    using step_history [of v h e s] by (auto simp add: suffix_Cons)
  then show ?case using Cons.IH [of "step v h e s"] by (auto simp add: run_Cons intro: suffix_order.trans)
qed

lemma run_ids_distinct:
  "distinct (map id' (history s)) \<Longrightarrow> distinct (end_clocks es) \<Longrightarrow>
   (\<forall>a \<in> set (end_clocks es). toString a \<notin> id' ` set (history s)) \<Longrightarrow>
   distinct (map id' (history (run v h es s)))"
proof (induction es arbitrary: s)
  case Nil
  then show ?case by (simp add: run_def)
next
  case (Cons e es)
  have clocks: "end_clocks (e # es) = end_clock e @ end_clocks es"
    by (simp add: end_clocks_def)
  consider (same) "history (step v h e s) = history s"
    | (new) n a b raw f where "e = StreamEnd n a b"
        "history (step v h e s) =
           \<lparr> id' = toString a, timestamp = b, rawInput = raw,
              HistoryItem.optimizedPrompt = f \<rparr> # history s"
    using step_history [of v h e s] by blast
  then have "distinct (map id' (history (run v h es (step v h e s))))"
  proof cases
    case same
    show ?thesis
    proof (rule Cons.IH)
      show "distinct (map id' (history (step v h e s)))" using same Cons.prems(1) by simp
      show "distinct (end_clocks es)" using Cons.prems(2) clocks by simp
      show "\<forall>a \<in> set (end_clocks es). toString a \<notin> id' ` set (history (step v h e s))"
        using same Cons.prems(3) clocks by simp
    qed
  next
    case new
    have ce: "end_clocks (e # es) = a # end_clocks es" using new(1) clocks by simp
    show ?thesis
    proof (rule Cons.IH)
      have "toString a \<notin> id' ` set (history s)" using Cons.prems(3) ce by simp
      then show "distinct (map id' (history (step v h e s)))" using new(2) Cons.prems(1) by simp
      show "distinct (end_clocks es)" using Cons.prems(2) ce by simp
      have "a \<notin> set (end_clocks es)" using Cons.prems(2) ce by simp
      then have "\<forall>a' \<in> set (end_clocks es). toString a' \<noteq> toString a"
        using toString_inj by blast
      then show "\<forall>a' \<in> set (end_clocks es). toString a' \<notin> id' ` set (history (step v h e s))"
        using new(2) Cons.prems(3) ce by auto
    qed
  qed
  then show ?case by (simp add: run_Cons)
qed

text \<open>
  Claim C9, as amended. The \<^verbatim>\<open>id\<close> of an item is the decimal rendering of the clock
  reading taken when its refinement stream ended. In the history reached from the initial
  state by any sequence of turns whose stream ends take pairwise distinct readings, all
  \<^verbatim>\<open>id\<close>s are distinct. And whatever the turns, the history before them is a suffix of
  the history after them: stored items are neither changed nor removed, new ones are put
  in front.
\<close>

theorem history_ids_distinct_for_distinct_clocks:
  "(distinct (end_clocks es) \<longrightarrow> distinct (map id' (history (run v h es initial)))) \<and>
   suffix (history s) (history (run v h es' s))"
  using run_ids_distinct [of initial es v h] run_history_suffix [of s v h es']
  by (simp add: initial_def)

lemma overlapping_history:
  "history (run Rev2 bare_host (overlapping_refinements t0 t1) initial) =
     [\<lparr> id' = toString t1, timestamp = t1, rawInput = ascii ''a'',
         HistoryItem.optimizedPrompt = [] \<rparr>,
      \<lparr> id' = toString t0, timestamp = t0, rawInput = ascii ''a'',
         HistoryItem.optimizedPrompt = ascii ''x'' \<rparr>]"
  by (simp add: overlapping_refinements_def run_simps stopListening_eq stopListeningInternal_eq
      handleError_eq release_calls_def onerror_def entity_not_found_def message_includes_def
      msg_voice_def handleRegenerate_def optimizePrompt_begin_def optimizePrompt_chunk_def
      optimizePrompt_end_def lookup_call_def trim_def isWhiteSpace_def truthy_def
      text_truthy_def ascii_def)

lemma toString_5: "toString 5 = ascii ''5''"
  by (simp add: toString_def digits.simps digit_def ascii_def)

lemma toString_6: "toString 6 = ascii ''6''"
  by (simp add: toString_def digits.simps digit_def ascii_def)

theorem history_ids_distinct_for_distinct_clocks_witness:
  "distinct (end_clocks (overlapping_refinements 5 6)) \<and>
   map id' (history (run Rev2 bare_host (overlapping_refinements 5 6) initial)) =
     [ascii ''6'', ascii ''5''] \<and>
   distinct (map id' (history (run Rev2 bare_host (overlapping_refinements 5 6) initial))) \<and>
   suffix (history initial) (history (run Rev2 bare_host (overlapping_refinements 5 6) initial))"
proof -
  have clocks: "end_clocks (overlapping_refinements 5 6) = [5, 6]"
    by (simp add: end_clocks_def overlapping_refinements_def)
  show ?thesis
    using history_ids_distinct_for_distinct_clocks
      [of "overlapping_refinements 5 6" Rev2 bare_host initial "overlapping_refinements 5 6"]
    by (simp add: clocks overlapping_history toString_5 toString_6)
qed

text \<open>
  The claim as first stated fails when two streams end at the same clock reading. A
  capture hears \<open>''a''\<close> and is stopped (first refinement), the voice session then
  reports an error, the user retries (second refinement, in flight together with the
  first), the first stream yields \<open>''x''\<close>, and both streams end in millisecond 5: the
  history holds two different items with the \<^verbatim>\<open>id\<close> \<open>''5''\<close>.
\<close>

theorem same_clock_same_id_counterexample:
  "history (run Rev2 bare_host (overlapping_refinements 5 5) initial) =
     [\<lparr> id' = ascii ''5'', timestamp = 5, rawInput = ascii ''a'',
         HistoryItem.optimizedPrompt = [] \<rparr>,
      \<lparr> id' = ascii ''5'', timestamp = 5, rawInput = ascii ''a'',
         HistoryItem.optimizedPrompt = ascii ''x'' \<rparr>] \<and>
   \<lparr> id' = ascii ''5'', timestamp = 5, rawInput = ascii ''a'',
      HistoryItem.optimizedPrompt = [] \<rparr> \<noteq>
   \<lparr> id' = ascii ''5'', timestamp = 5, rawInput = ascii ''a'',
      HistoryItem.optimizedPrompt = ascii ''x'' \<rparr> \<and>
   \<not> distinct (map id' (history (run Rev2 bare_host (overlapping_refinements 5 5) initial)))"
  by (simp add: overlapping_history toString_5 ascii_def)

subsection \<open>Inputs of refinement requests\<close>

lemma last_dropWhile: "dropWhile P xs \<noteq> [] \<Longrightarrow> last (dropWhile P xs) = last xs"
  by (induction xs) (auto split: if_splits)

lemma dropWhile_rev_trimmed:
  "dropWhile P (rev (dropWhile P (rev (dropWhile P s)))) = rev (dropWhile P (rev (dropWhile P s)))"
proof -
  let ?t = "dropWhile P s"
  let ?u = "dropWhile P (rev ?t)"
  show "dropWhile P (rev ?u) = rev ?u"
  proof (cases "?u = []")
    case True
    show ?thesis unfolding True by simp
  next
    case False
    have t: "?t \<noteq> []"
    proof
      assume e: "?t = []"
      from False show False unfolding e by simp
    qed
    have "hd (rev ?u) = last ?u" using False by (simp add: hd_rev)
    also have "\<dots> = last (rev ?t)" using False by (rule last_dropWhile)
    also have "\<dots> = hd ?t" using t by (simp add: last_rev)
    finally have "hd (rev ?u) = hd ?t" .
    moreover have "\<not> P (hd ?t)" using t by (rule hd_dropWhile)
    ultimately show ?thesis by (simp add: dropWhile_eq_self_iff)
  qed
qed

lemma trim_idem: "trim (trim s) = trim s"
  by (simp add: trim_def dropWhile_rev_trimmed)

lemma handleSelectKey_submitted:
  "\<exists>t. (handleSelectKey v h s = Completed t \<or> handleSelectKey v h s = Aborted t) \<and>
       submitted t = submitted s"
  by (auto simp add: handleSelectKey_def handleSelectKey_settled_def handleSelectKey_call_def
      perform_def submitted_def Let_def split: option.splits promise.splits)

lemma checkKeyFirst_submitted:
  "\<exists>t. (checkKeyFirst h s = Completed t \<or> checkKeyFirst h s = Aborted t) \<and>
       submitted t = submitted s"
  using handleSelectKey_submitted [of Rev1 h s]
  by (auto simp add: checkKeyFirst_def split: option.splits promise.splits)

lemma submitted_handleError: "submitted (handleError msg s) = submitted s"
  by (simp add: submitted_def handleError_eq release_calls_no_request)

lemma submitted_updates:
  "submitted (s\<lparr>error := a\<rparr>) = submitted s"
  "submitted (s\<lparr>transcript := b\<rparr>) = submitted s"
  "submitted (s\<lparr>optimizedPrompt := c\<rparr>) = submitted s"
  "submitted (s\<lparr>transcriptRef := d\<rparr>) = submitted s"
  "submitted (s\<lparr>audioContextRef := e\<rparr>) = submitted s"
  "submitted (s\<lparr>streamRef := f\<rparr>) = submitted s"
  by (simp_all add: submitted_def)

lemma startListening_submitted: "submitted (fst (startListening v h env s)) = submitted s"
proof (cases v)
  case Rev1
  obtain t where "checkKeyFirst h s = Completed t \<or> checkKeyFirst h s = Aborted t"
    and "submitted t = submitted s"
    using checkKeyFirst_submitted by blast
  then show ?thesis using Rev1
    by (auto simp add: Let_def submitted_handleError submitted_updates reset_capture_def
        split: option.splits)
next
  case Rev2
  obtain t where "handleSelectKey Rev2 h s = Completed t \<or> handleSelectKey Rev2 h s = Aborted t"
    and "submitted t = submitted s"
    using handleSelectKey_submitted by blast
  then show ?thesis using Rev2
    by (auto simp add: Let_def submitted_handleError submitted_updates reset_capture_def
        split: option.splits)
qed

lemma handleManualSubmit_submitted:
  "submitted (handleManualSubmit h s) = submitted s \<or>
   (submitted (handleManualSubmit h s) = submitted s @ [trim (manualText s)] \<and>
    truthy (trim (manualText s)))"
proof -
  obtain t where "checkKeyFirst h s = Completed t \<or> checkKeyFirst h s = Aborted t"
    and "submitted t = submitted s"
    using checkKeyFirst_submitted by blast
  then show ?thesis
    by (auto simp add: handleManualSubmit_def optimizePrompt_begin_def perform_def submitted_def)
qed

lemma stopListening_submitted:
  "submitted (stopListening v s) =
     (if truthy (trim (transcriptRef s)) then submitted s @ [trim (transcriptRef s)]
      else submitted s)"
  using submitted_stopListeningInternal [of s]
  by (simp add: stopListening_eq optimizePrompt_begin_def perform_def submitted_def)

text \<open>
  What holds of every turn: it makes at most one refinement request, the input of a
  request is never empty or whitespace only, and it is trimmed on every path but the
  regenerate control.
\<close>

lemma fire_requests:
  "submitted (fire v h e s) = submitted s \<or>
   (\<exists>r. submitted (fire v h e s) = submitted s @ [r] \<and> truthy (trim r) \<and>
        (e = ClickRegenerate \<or> trim r = r))"
proof (cases e)
  case (ClickStart env)
  then show ?thesis using startListening_submitted [of v h env s]
    by (cases "startListening v h env s") (auto simp add: submitted_def split: option.splits)
next
  case ClickSubmit
  then show ?thesis using handleManualSubmit_submitted [of h s] by (auto simp add: trim_idem)
next
  case ClickStop
  then show ?thesis by (simp add: stopListening_submitted trim_idem)
next
  case OnClose
  then show ?thesis
    by (simp add: onclose_def stopListening_submitted trim_idem split: option.splits)
qed (auto simp add: handler_defs submitted_def release_calls_no_request trim_idem
        split: option.splits prod.splits promise.splits revision.splits)

lemma step_requests:
  "submitted (step v h e s) = submitted s \<or>
   (\<exists>r. submitted (step v h e s) = submitted s @ [r] \<and> truthy (trim r) \<and>
        (e = ClickRegenerate \<or> trim r = r))"
  using fire_requests [of v h e s] by (simp add: step_def)

text \<open>
  Claim C6 at a concrete run. A capture hears the fragment \<open>'' hi''\<close> and is stopped: the
  request carries the trimmed \<open>''hi''\<close>. The refinement finishes and the user clicks
  regenerate: \<open>handleRegenerate\<close> tests the trimmed buffer but passes the buffer itself,
  so the second request carries \<open>'' hi''\<close>, which is not trimmed.
\<close>

theorem regenerate_submits_untrimmed_transcript:
  "submitted (run Rev2 bare_host
      [ClickStart granting, OnOpen 5, OnMessage (fragment_message (ascii '' hi'')), ClickStop,
       StreamChunk 0 (Some (ascii ''ok'')), StreamEnd 0 5 5, ClickRegenerate] initial) =
     [ascii ''hi'', ascii '' hi''] \<and>
   trim (ascii '' hi'') \<noteq> ascii '' hi''"
  by (simp add: run_simps stopListening_eq stopListeningInternal_eq
      release_calls_def handleRegenerate_def optimizePrompt_begin_def optimizePrompt_chunk_def
      optimizePrompt_end_def lookup_call_def trim_def isWhiteSpace_def truthy_def
      text_truthy_def submitted_def ascii_def)

end
